theory Spec2Isabelle
  imports Complex_Main "HOL-Library.Log_Nat"
begin

section \<open>JavaScript Numbers\<close>

text \<open>
  A JavaScript Number is an IEEE 754 double: \<open>NaN\<close>, one of the two infinities, or a
  finite value, kept here as the rational it denotes. Every arithmetic operation and
  every conversion from text yields the double nearest to the exact result. The sign of
  zero is not modelled (a zero is a positive zero).
\<close>

datatype jsnum = NaN | PosInf | NegInf | Num rat

text \<open>Truthiness of a Number: \<open>0\<close> and \<open>NaN\<close> are falsy.\<close>

fun truthy :: "jsnum \<Rightarrow> bool" where
  "truthy NaN = False"
| "truthy (Num r) = (r \<noteq> 0)"
| "truthy PosInf = True"
| "truthy NegInf = True"

text \<open>Truthiness of a nullable Number (\<open>None\<close> is \<open>null\<close> or \<open>undefined\<close>).\<close>

fun truthy_opt :: "jsnum option \<Rightarrow> bool" where
  "truthy_opt None = False"
| "truthy_opt (Some x) = truthy x"

text \<open>The comparisons \<open>a < b\<close> and \<open>a <= b\<close>: false as soon as one side is \<open>NaN\<close>.\<close>

fun js_lt :: "jsnum \<Rightarrow> jsnum \<Rightarrow> bool" where
  "js_lt NaN b = False"
| "js_lt a NaN = False"
| "js_lt (Num a) (Num b) = (a < b)"
| "js_lt a NegInf = False"
| "js_lt PosInf b = False"
| "js_lt NegInf b = True"
| "js_lt (Num a) PosInf = True"

fun js_le :: "jsnum \<Rightarrow> jsnum \<Rightarrow> bool" where
  "js_le NaN b = False"
| "js_le a NaN = False"
| "js_le (Num a) (Num b) = (a \<le> b)"
| "js_le NegInf b = True"
| "js_le a PosInf = True"
| "js_le a NegInf = False"
| "js_le PosInf b = False"

text \<open>
  The double nearest to a rational. For \<open>x > 0\<close> with \<open>2^e \<le> x < 2^(e+1)\<close> the doubles
  around \<open>x\<close> are the multiples of \<open>2^(e-52)\<close>, and of \<open>2^(-1074)\<close> below the normal
  range; \<open>x\<close> is rounded to the nearest multiple, to the even one on a tie, and the
  result is infinite when it reaches \<open>2^1024\<close>.
\<close>

definition binary_exponent :: "rat \<Rightarrow> int" where
  "binary_exponent x =
     (if 1 \<le> x then bitlen \<lfloor>x\<rfloor> - 1
      else - bitlen (\<lceil>1 / x\<rceil> - 1))"

definition round_half_even :: "rat \<Rightarrow> int" where
  "round_half_even y =
     (let f = \<lfloor>y\<rfloor>; d = y - of_int f
      in if d < 1 / 2 then f else if 1 / 2 < d then f + 1
         else if even f then f else f + 1)"

definition round_pos :: "rat \<Rightarrow> jsnum" where
  "round_pos x =
     (let q = max (binary_exponent x) (- 1022) - 52;
          r = of_int (round_half_even (x / 2 powi q)) * 2 powi q
      in if 2 powi 1024 \<le> r then PosInf else Num r)"

definition round_double :: "rat \<Rightarrow> jsnum" where
  "round_double x =
     (if x = 0 then Num 0
      else if 0 < x then round_pos x
      else (case round_pos (- x) of Num r \<Rightarrow> Num (- r) | _ \<Rightarrow> NegInf))"

text \<open>Subtraction, division and multiplication of Numbers. Division by zero does not
  throw: it gives \<open>NaN\<close> or an infinity.\<close>

fun js_minus :: "jsnum \<Rightarrow> jsnum \<Rightarrow> jsnum" where
  "js_minus (Num a) (Num b) = round_double (a - b)"
| "js_minus NaN b = NaN"
| "js_minus a NaN = NaN"
| "js_minus PosInf PosInf = NaN"
| "js_minus NegInf NegInf = NaN"
| "js_minus PosInf b = PosInf"
| "js_minus NegInf b = NegInf"
| "js_minus (Num a) PosInf = NegInf"
| "js_minus (Num a) NegInf = PosInf"

fun js_div :: "jsnum \<Rightarrow> jsnum \<Rightarrow> jsnum" where
  "js_div (Num a) (Num b) =
     (if b = 0 then (if a = 0 then NaN else if 0 < a then PosInf else NegInf)
      else round_double (a / b))"
| "js_div NaN b = NaN"
| "js_div a NaN = NaN"
| "js_div (Num a) b = Num 0"
| "js_div a (Num b) = (if (a = PosInf) = (0 \<le> b) then PosInf else NegInf)"
| "js_div a b = NaN"

fun js_times :: "jsnum \<Rightarrow> jsnum \<Rightarrow> jsnum" where
  "js_times (Num a) (Num b) = round_double (a * b)"
| "js_times NaN b = NaN"
| "js_times a NaN = NaN"
| "js_times (Num a) b =
     (if a = 0 then NaN else if (b = PosInf) = (0 < a) then PosInf else NegInf)"
| "js_times a (Num b) =
     (if b = 0 then NaN else if (a = PosInf) = (0 < b) then PosInf else NegInf)"
| "js_times a b = (if a = b then PosInf else NegInf)"

text \<open>\<open>Math.round\<close>: the nearest integer, the larger one on a tie. \<open>x.toFixed(2)\<close> as
  the number its result denotes: the nearest multiple of one hundredth of the absolute
  value, the larger one on a tie, with the sign of \<open>x\<close>; from \<open>10^21\<close> on, and for
  \<open>NaN\<close> and the infinities, the result denotes \<open>x\<close> itself.\<close>

fun Math_round :: "jsnum \<Rightarrow> jsnum" where
  "Math_round (Num a) = Num (of_int \<lfloor>a + 1 / 2\<rfloor>)"
| "Math_round x = x"

fun toFixed2 :: "jsnum \<Rightarrow> jsnum" where
  "toFixed2 (Num x) =
     (if 10 ^ 21 \<le> \<bar>x\<bar> then Num x
      else Num (sgn x * (of_int \<lfloor>\<bar>x\<bar> * 100 + 1 / 2\<rfloor> / 100)))"
| "toFixed2 x = x"

section \<open>Strings\<close>

text \<open>\<open>a || b\<close> on strings: the empty string is falsy.\<close>

definition or_str :: "string \<Rightarrow> string \<Rightarrow> string" where
  "or_str a b = (if a \<noteq> [] then a else b)"

text \<open>\<open>a || b\<close> where \<open>a\<close> may be \<open>undefined\<close> (an absent attribute) or a string.\<close>

fun or_undef :: "string option \<Rightarrow> string option \<Rightarrow> string option" where
  "or_undef (Some a) b = (if a \<noteq> [] then Some a else b)"
| "or_undef None b = b"

text \<open>\<open>url.includes(t)\<close>: \<open>t\<close> occurs in \<open>s\<close> as a contiguous substring.\<close>

fun starts_with :: "string \<Rightarrow> string \<Rightarrow> bool" where
  "starts_with s [] = True"
| "starts_with [] (c # t) = False"
| "starts_with (d # s) (c # t) = (d = c \<and> starts_with s t)"

fun str_includes :: "string \<Rightarrow> string \<Rightarrow> bool" where
  "str_includes [] t = (t = [])"
| "str_includes (c # s) t = (starts_with (c # s) t \<or> str_includes s t)"

section \<open>Numeric normalisation: \<open>replace(/[^\d.]/g, '')\<close> and \<open>parseFloat\<close>\<close>

definition is_digit :: "char \<Rightarrow> bool" where
  "is_digit c = (c \<in> set ''0123456789'')"

text \<open>The regular expression \<open>/[^\d.]/g\<close> replaced by the empty string keeps exactly
  the ASCII digits and the full stop.\<close>

definition strip_price :: "string \<Rightarrow> string" where
  "strip_price s = filter (\<lambda>c. is_digit c \<or> c = CHR ''.'') s"

text \<open>The value of a digit is its distance from the character \<open>0\<close>.\<close>

definition digit_val :: "char \<Rightarrow> nat" where
  "digit_val c = of_char c - of_char (CHR ''0'')"

definition digits_val :: "string \<Rightarrow> nat" where
  "digits_val ds = foldl (\<lambda>a c. 10 * a + digit_val c) 0 ds"

text \<open>
  \<open>parseFloat\<close> reads the longest prefix of its argument that is a decimal literal and
  ignores the rest; when no prefix is one, the result is \<open>NaN\<close>, and otherwise it is the
  double nearest to the value of the literal (as V8 computes it; ECMAScript leaves the
  digits after the twentieth to the implementation). server.js only calls it on the output of
  the replacement above, a string of digits and full stops, so signs, exponents, white
  space and the word Infinity never reach it and are not modelled: the literal is
  \<open>digits\<close>, \<open>digits.\<close>, \<open>digits.digits\<close> or \<open>.digits\<close>.
\<close>

definition literal_value :: "string \<Rightarrow> string \<Rightarrow> rat" where
  "literal_value ip fp = of_nat (digits_val ip) + of_nat (digits_val fp) / 10 ^ length fp"

definition parseFloat :: "string \<Rightarrow> jsnum" where
  "parseFloat s =
     (let ip = takeWhile is_digit s;
          rest = dropWhile is_digit s;
          fp = (case rest of [] \<Rightarrow> [] | c # t \<Rightarrow> if c = CHR ''.'' then takeWhile is_digit t else [])
      in if ip = [] \<and> fp = [] then NaN else round_double (literal_value ip fp))"

section \<open>The fetched page and \<open>scrapePrice\<close>\<close>

text \<open>
  The cheerio expressions that \<open>scrapePrice\<close> evaluates on the loaded page. A page is
  modelled by what each of them returns: \<open>.text()\<close> and \<open>.text().trim()\<close> always yield
  a string, \<open>.attr('src')\<close> may yield \<open>undefined\<close>. Strings are sequences of bytes
  (UTF-8); the digits, the full stop and the store names are ASCII.
\<close>

datatype text_query =
    Amazon_price_whole      \<comment> \<open>\<open>$('.a-price-whole').first().text()\<close>\<close>
  | Amazon_offscreen        \<comment> \<open>\<open>$('.a-offscreen').first().text()\<close>\<close>
  | Amazon_title            \<comment> \<open>\<open>$('#productTitle').text().trim()\<close>\<close>
  | Ebay_price_current      \<comment> \<open>\<open>$('.price-current').text()\<close>\<close>
  | Ebay_notranslate        \<comment> \<open>\<open>$('.notranslate').first().text()\<close>\<close>
  | Ebay_title              \<comment> \<open>\<open>$('.x-item-title-label').text().trim()\<close>\<close>
  | Walmart_testid_price    \<comment> \<open>\<open>$('[data-testid="price-current"]').text()\<close>\<close>
  | Walmart_price_current   \<comment> \<open>\<open>$('.price-current').text()\<close>\<close>
  | Walmart_title           \<comment> \<open>\<open>$('h1[data-testid="product-title"]').text().trim()\<close>\<close>
  | Bestbuy_sr_only_parent  \<comment> \<open>\<open>$('.sr-only:contains("current price")').parent().text()\<close>\<close>
  | Bestbuy_price_range     \<comment> \<open>\<open>$('.pricing-price__range').first().text()\<close>\<close>
  | Bestbuy_title           \<comment> \<open>\<open>$('.sku-title h1').text().trim()\<close>\<close>
  | Target_price            \<comment> \<open>\<open>$('[data-test="product-price"]').text()\<close>\<close>
  | Target_title            \<comment> \<open>\<open>$('[data-test="product-title"]').text().trim()\<close>\<close>

datatype attr_query =
    Amazon_landingImage     \<comment> \<open>\<open>$('#landingImage').attr('src')\<close>\<close>
  | Amazon_dynamic_image    \<comment> \<open>\<open>$('.a-dynamic-image').first().attr('src')\<close>\<close>
  | Ebay_icImg              \<comment> \<open>\<open>$('#icImg').attr('src')\<close>\<close>
  | Walmart_hero_image      \<comment> \<open>\<open>$('img[data-testid="hero-image-container"]').attr('src')\<close>\<close>
  | Bestbuy_primary_image   \<comment> \<open>\<open>$('.primary-image').attr('src')\<close>\<close>
  | Target_hero_image       \<comment> \<open>\<open>$('img[data-test="hero-image"]').attr('src')\<close>\<close>

record document =
  text_at :: "text_query \<Rightarrow> string"
  src_at :: "attr_query \<Rightarrow> string option"

text \<open>The four local variables of \<open>scrapePrice\<close> after the chain of store branches:
  the stripped price string (\<open>None\<close> while it is still \<open>null\<close>), title, image, store.\<close>

record scraped_vars =
  v_price :: "string option"
  v_title :: string
  v_image :: "string option"
  v_store :: string

definition store_branch :: "string \<Rightarrow> document \<Rightarrow> scraped_vars" where
  "store_branch url d =
     (if str_includes url ''amazon.'' then
        \<lparr> v_price = Some (or_str (strip_price (text_at d Amazon_price_whole))
                                (strip_price (text_at d Amazon_offscreen))),
          v_title = text_at d Amazon_title,
          v_image = or_undef (src_at d Amazon_landingImage) (src_at d Amazon_dynamic_image),
          v_store = ''Amazon'' \<rparr>
      else if str_includes url ''ebay.'' then
        \<lparr> v_price = Some (or_str (strip_price (text_at d Ebay_price_current))
                                (strip_price (text_at d Ebay_notranslate))),
          v_title = text_at d Ebay_title,
          v_image = src_at d Ebay_icImg,
          v_store = ''eBay'' \<rparr>
      else if str_includes url ''walmart.'' then
        \<lparr> v_price = Some (or_str (strip_price (text_at d Walmart_testid_price))
                                (strip_price (text_at d Walmart_price_current))),
          v_title = text_at d Walmart_title,
          v_image = src_at d Walmart_hero_image,
          v_store = ''Walmart'' \<rparr>
      else if str_includes url ''bestbuy.'' then
        \<lparr> v_price = Some (or_str (strip_price (text_at d Bestbuy_sr_only_parent))
                                (strip_price (text_at d Bestbuy_price_range))),
          v_title = text_at d Bestbuy_title,
          v_image = src_at d Bestbuy_primary_image,
          v_store = ''Best Buy'' \<rparr>
      else if str_includes url ''target.'' then
        \<lparr> v_price = Some (strip_price (text_at d Target_price)),
          v_title = text_at d Target_title,
          v_image = src_at d Target_hero_image,
          v_store = ''Target'' \<rparr>
      else
        \<lparr> v_price = None, v_title = [], v_image = Some [], v_store = [] \<rparr>)"

text \<open>The object \<open>scrapePrice\<close> returns; \<open>sd_price = None\<close> is \<open>price: null\<close>.\<close>

record scraped_data =
  sd_price :: "jsnum option"
  sd_title :: string
  sd_image :: string
  sd_store :: string

text \<open>\<open>price ? parseFloat(price) : null\<close>: a \<open>null\<close> or empty price string gives \<open>null\<close>.\<close>

fun price_result :: "string option \<Rightarrow> jsnum option" where
  "price_result None = None"
| "price_result (Some s) = (if s \<noteq> [] then Some (parseFloat s) else None)"

definition scrape_page :: "string \<Rightarrow> document \<Rightarrow> scraped_data" where
  "scrape_page url d =
     (let v = store_branch url d in
      \<lparr> sd_price = price_result (v_price v),
        sd_title = or_str (v_title v) ''Unknown Product'',
        sd_image = (case v_image v of None \<Rightarrow> [] | Some i \<Rightarrow> or_str i []),
        sd_store = or_str (v_store v) ''Unknown Store'' \<rparr>)"

section \<open>Stored records\<close>

text \<open>
  One element of \<open>priceHistory\<close>, and the Product and User documents of the two
  schemas. Prices are Numbers. \<open>targetPrice\<close> and \<open>category\<close> are optional in the
  schema.
\<close>

record price_point =
  price :: jsnum
  date :: nat

record product =
  pid :: nat
  userId :: nat
  url :: string
  title :: string
  currentPrice :: jsnum
  targetPrice :: "jsnum option"
  image :: string
  store :: string
  category :: "string option"
  priceHistory :: "price_point list"
  isActive :: bool
  createdAt :: nat
  lastChecked :: nat

record user =
  user_id :: nat
  username :: string
  email :: string
  password :: string
  notifications :: bool
  user_createdAt :: nat

section \<open>The notification e-mail\<close>

text \<open>
  The fields that \<open>sendNotification\<close> interpolates into \<open>mailOptions\<close>: recipient,
  subject (the product title after a fixed prefix), and in the HTML body the title,
  image, store, the two prices, the saving \<open>(oldPrice - newPrice).toFixed(2)\<close>, the
  percentage and the link.
\<close>

record mail =
  mail_to :: string
  mail_subject :: string
  mail_title :: string
  mail_image :: string
  mail_store :: string
  mail_previous :: jsnum
  mail_new :: jsnum
  mail_you_save :: jsnum
  mail_percent :: jsnum
  mail_link :: string

text \<open>The percentage of line 192:
  \<open>Math.round(((oldPrice - newPrice) / oldPrice) * 100)\<close>.\<close>

definition percent_off :: "jsnum \<Rightarrow> jsnum \<Rightarrow> jsnum" where
  "percent_off oldPrice newPrice =
     Math_round (js_times (js_div (js_minus oldPrice newPrice) oldPrice) (Num 100))"

definition mailOptions :: "user \<Rightarrow> product \<Rightarrow> jsnum \<Rightarrow> jsnum \<Rightarrow> mail" where
  "mailOptions u p oldPrice newPrice =
     \<lparr> mail_to = email u,
       mail_subject = ''Price Drop Alert: '' @ title p,
       mail_title = title p,
       mail_image = image p,
       mail_store = store p,
       mail_previous = oldPrice,
       mail_new = newPrice,
       mail_you_save = toFixed2 (js_minus oldPrice newPrice),
       mail_percent = percent_off oldPrice newPrice,
       mail_link = url p \<rparr>"

section \<open>The outside world\<close>

text \<open>
  What server.js cannot decide by itself is a parameter of the model: the outcome of
  each HTTP request (\<open>None\<close>: \<open>axios.get\<close> throws), whether \<open>product.save()\<close>,
  \<open>Product.find\<close> and \<open>User.findById\<close> reject, which user \<open>findById\<close> finds, and
  whether \<open>transporter.sendMail\<close> rejects.
\<close>

datatype failure = Rejected

record env =
  fetch :: "string \<Rightarrow> document option"
  save_rejects :: "product \<Rightarrow> bool"
  find_rejects :: bool
  findById :: "nat \<Rightarrow> failure + user option"
  sendMail_rejects :: "mail \<Rightarrow> bool"

text \<open>What the server does that can be observed from outside, in the order it happens.\<close>

datatype logline =
    Starting_price_check
  | Scraping_error
  | Notification_sent string
  | Email_error
  | Updated string jsnum jsnum
  | Error_checking string
  | Price_check_completed
  | Price_check_error

datatype event =
    Request string                    \<comment> \<open>\<open>axios.get(url)\<close>\<close>
  | Saved product                     \<comment> \<open>\<open>product.save()\<close> resolved\<close>
  | Notifier user product jsnum jsnum     \<comment> \<open>\<open>sendNotification(user, product, oldPrice, newPrice)\<close> called\<close>
  | Mail_delivered mail               \<comment> \<open>\<open>transporter.sendMail\<close> resolved\<close>
  | Mail_failed mail                  \<comment> \<open>\<open>transporter.sendMail\<close> rejected\<close>
  | Delay nat                         \<comment> \<open>\<open>setTimeout(resolve, ms)\<close> awaited\<close>
  | Log logline                       \<comment> \<open>\<open>console.log\<close>, \<open>console.error\<close>\<close>

text \<open>The state: the Product collection, the clock in milliseconds (advanced only by
  the awaited time-outs; the durations of requests and writes are not modelled), and the
  events so far.\<close>

record world =
  products :: "product list"
  now :: nat
  trace :: "event list"

definition emit :: "event \<Rightarrow> world \<Rightarrow> world" where
  "emit ev s = s\<lparr>trace := trace s @ [ev]\<rparr>"

text \<open>
  \<open>scrapePrice(url)\<close>. The request either yields a page or throws (network error,
  time-out, error status); the \<open>catch\<close> logs and turns any throw into the result
  \<open>null\<close>, here \<open>None\<close>.
\<close>

definition scrapePrice :: "env \<Rightarrow> string \<Rightarrow> world \<Rightarrow> scraped_data option \<times> world" where
  "scrapePrice e u s =
     (case fetch e u of
        None \<Rightarrow> (None, emit (Log Scraping_error) (emit (Request u) s))
      | Some d \<Rightarrow> (Some (scrape_page u d), emit (Request u) s))"

text \<open>\<open>sendNotification\<close>: nothing at all when the user's \<open>notifications\<close> flag is off;
  a rejection of \<open>sendMail\<close> is caught and logged.\<close>

definition sendNotification :: "env \<Rightarrow> user \<Rightarrow> product \<Rightarrow> jsnum \<Rightarrow> jsnum \<Rightarrow> world \<Rightarrow> world" where
  "sendNotification e u p oldPrice newPrice s =
     (if \<not> notifications u then s
      else let m = mailOptions u p oldPrice newPrice in
        if sendMail_rejects e m then emit (Log Email_error) (emit (Mail_failed m) s)
        else emit (Log (Notification_sent (email u))) (emit (Mail_delivered m) s))"

section \<open>\<open>checkPrices\<close>\<close>

text \<open>\<open>xs.slice(-n)\<close> for a positive \<open>n\<close>: the last \<open>n\<close> elements in their order, all
  of \<open>xs\<close> when it is shorter. Then lines 416 to 423: the new current price, the time
  of the check, the pushed observation, and \<open>slice(-30)\<close> once the history is longer
  than 30.\<close>

definition slice_last :: "nat \<Rightarrow> 'a list \<Rightarrow> 'a list" where
  "slice_last n xs = drop (length xs - n) xs"

definition update_product :: "product \<Rightarrow> jsnum \<Rightarrow> nat \<Rightarrow> product" where
  "update_product p newPrice t =
     (let h = priceHistory p @ [\<lparr>price = newPrice, date = t\<rparr>]
      in p\<lparr>currentPrice := newPrice, lastChecked := t,
            priceHistory := (if 30 < length h then slice_last 30 h else h)\<rparr>)"

text \<open>\<open>product.save()\<close> of a document loaded from the collection: the stored document
  with the same \<open>_id\<close> is replaced.\<close>

definition save_doc :: "product list \<Rightarrow> product \<Rightarrow> product list" where
  "save_doc db p = map (\<lambda>q. if pid q = pid p then p else q) db"

text \<open>The condition of line 428:
  \<open>product.targetPrice && newPrice <= product.targetPrice && newPrice < oldPrice\<close>.\<close>

definition price_dropped :: "product \<Rightarrow> jsnum \<Rightarrow> jsnum \<Rightarrow> bool" where
  "price_dropped p newPrice oldPrice =
     (case targetPrice p of
        None \<Rightarrow> False
      | Some t \<Rightarrow> truthy t \<and> js_le newPrice t \<and> js_lt newPrice oldPrice)"

definition pace :: "world \<Rightarrow> world" where
  "pace s = emit (Delay 2000) (s\<lparr>now := now s + 2000\<rparr>)"

text \<open>
  The body of the \<open>for\<close> loop, lines 408 to 443. A rejected \<open>save\<close> or \<open>findById\<close>
  throws out of the \<open>try\<close> block into the \<open>catch\<close>, which logs; the rest of the block,
  including the time-out at its end, is then not executed.
\<close>

definition check_product :: "env \<Rightarrow> product \<Rightarrow> world \<Rightarrow> world" where
  "check_product e p s0 =
     (case scrapePrice e (url p) s0 of (scrapedData, s) \<Rightarrow>
        (case scrapedData of
           None \<Rightarrow> pace s
         | Some sd \<Rightarrow>
            (case sd_price sd of
               None \<Rightarrow> pace s
             | Some newPrice \<Rightarrow>
                 if truthy newPrice then
                   (let oldPrice = currentPrice p;
                        p' = update_product p newPrice (now s)
                    in if save_rejects e p' then emit (Log (Error_checking (title p'))) s
                       else
                         (let s1 = emit (Saved p') (s\<lparr>products := save_doc (products s) p'\<rparr>)
                          in if price_dropped p' newPrice oldPrice then
                               (case findById e (userId p') of
                                  Inl Rejected \<Rightarrow> emit (Log (Error_checking (title p'))) s1
                                | Inr None \<Rightarrow>
                                    pace (emit (Log (Updated (title p') oldPrice newPrice)) s1)
                                | Inr (Some u) \<Rightarrow>
                                    pace (emit (Log (Updated (title p') oldPrice newPrice))
                                      (sendNotification e u p' oldPrice newPrice
                                         (emit (Notifier u p' oldPrice newPrice) s1))))
                             else pace (emit (Log (Updated (title p') oldPrice newPrice)) s1)))
                 else pace s)))"

fun check_loop :: "env \<Rightarrow> product list \<Rightarrow> world \<Rightarrow> world" where
  "check_loop e [] s = s"
| "check_loop e (p # ps) s = check_loop e ps (check_product e p s)"

definition checkPrices :: "env \<Rightarrow> world \<Rightarrow> world" where
  "checkPrices e s0 =
     (let s = emit (Log Starting_price_check) s0 in
      if find_rejects e then emit (Log Price_check_error) s
      else emit (Log Price_check_completed) (check_loop e (filter isActive (products s)) s))"

section \<open>The product routes\<close>

datatype response =
    Created product        \<comment> \<open>status 201 with the product\<close>
  | Bad_request string     \<comment> \<open>status 400 with an error message\<close>
  | Not_found string       \<comment> \<open>status 404\<close>
  | Server_error           \<comment> \<open>status 500\<close>
  | Ok_product product     \<comment> \<open>status 200 with the product\<close>
  | Ok_message string      \<comment> \<open>status 200 with a message\<close>

definition fresh_id :: "product list \<Rightarrow> nat" where
  "fresh_id db = Suc (foldr max (map pid db) 0)"

text \<open>
  \<open>POST /api/products\<close> for the authenticated user \<open>uid\<close>: one call of \<open>scrapePrice\<close>;
  a \<open>null\<close> result or a falsy price is answered with status 400 and nothing is stored.
\<close>

definition post_product :: "env \<Rightarrow> nat \<Rightarrow> string \<Rightarrow> jsnum option \<Rightarrow> world \<Rightarrow> response \<times> world" where
  "post_product e uid u target s0 =
     (case scrapePrice e u s0 of (scrapedData, s) \<Rightarrow>
        (case scrapedData of
           None \<Rightarrow> (Bad_request ''Unable to scrape product data. Please check the URL.'', s)
         | Some sd \<Rightarrow>
            (case sd_price sd of
               None \<Rightarrow> (Bad_request ''Unable to scrape product data. Please check the URL.'', s)
             | Some p \<Rightarrow>
                 if truthy p then
                   (let doc = \<lparr> pid = fresh_id (products s), userId = uid, url = u,
                                title = sd_title sd, currentPrice = p, targetPrice = target,
                                image = sd_image sd, store = sd_store sd, category = None,
                                priceHistory = [\<lparr>price = p, date = now s\<rparr>], isActive = True,
                                createdAt = now s, lastChecked = now s \<rparr>
                    in if save_rejects e doc then (Server_error, s)
                       else (Created doc, emit (Saved doc) (s\<lparr>products := products s @ [doc]\<rparr>)))
                 else (Bad_request ''Unable to scrape product data. Please check the URL.'', s))))"

text \<open>\<open>findOneAndUpdate(filter, change)\<close>: the first document matching the filter is
  changed; \<open>None\<close> when no document matches.\<close>

fun findOneAndUpdate :: "(product \<Rightarrow> bool) \<Rightarrow> (product \<Rightarrow> product) \<Rightarrow> product list \<Rightarrow> (product \<times> product list) option" where
  "findOneAndUpdate f g [] = None"
| "findOneAndUpdate f g (q # db) =
     (if f q then Some (g q, g q # db)
      else (case findOneAndUpdate f g db of
              None \<Rightarrow> None
            | Some (r, db') \<Rightarrow> Some (r, q # db')))"

text \<open>\<open>PUT /api/products/:id\<close> sets the target price, \<open>DELETE /api/products/:id\<close>
  clears the active flag; both only on a product of the authenticated user.\<close>

definition put_product :: "nat \<Rightarrow> nat \<Rightarrow> jsnum option \<Rightarrow> world \<Rightarrow> response \<times> world" where
  "put_product uid i target s =
     (case findOneAndUpdate (\<lambda>q. pid q = i \<and> userId q = uid) (\<lambda>q. q\<lparr>targetPrice := target\<rparr>)
             (products s) of
        None \<Rightarrow> (Not_found ''Product not found'', s)
      | Some (r, db') \<Rightarrow> (Ok_product r, s\<lparr>products := db'\<rparr>))"

definition delete_product :: "nat \<Rightarrow> nat \<Rightarrow> world \<Rightarrow> response \<times> world" where
  "delete_product uid i s =
     (case findOneAndUpdate (\<lambda>q. pid q = i \<and> userId q = uid) (\<lambda>q. q\<lparr>isActive := False\<rparr>)
             (products s) of
        None \<Rightarrow> (Not_found ''Product not found'', s)
      | Some (r, db') \<Rightarrow> (Ok_message ''Product removed from tracking'', s\<lparr>products := db'\<rparr>))"

section \<open>Auxiliary notions for the statements\<close>

text \<open>The price a check of URL \<open>u\<close> observes: the price of the scraped data when the
  request succeeds and that price is truthy, otherwise none. It is the value bound to
  \<open>newPrice\<close> on line 413 when the test of line 411 passes.\<close>

definition new_price :: "env \<Rightarrow> string \<Rightarrow> jsnum option" where
  "new_price e u =
     (case fetch e u of
        None \<Rightarrow> None
      | Some d \<Rightarrow>
         (case sd_price (scrape_page u d) of
            None \<Rightarrow> None
          | Some v \<Rightarrow> if truthy v then Some v else None))"

text \<open>The events that one pass through the loop body adds to the trace.\<close>

definition step_events :: "env \<Rightarrow> product \<Rightarrow> world \<Rightarrow> event list" where
  "step_events e p s = drop (length (trace s)) (trace (check_product e p s))"

text \<open>The URLs requested in a trace, in order.\<close>

fun requests :: "event list \<Rightarrow> string list" where
  "requests [] = []"
| "requests (Request u # evs) = u # requests evs"
| "requests (ev # evs) = requests evs"

section \<open>Sample data\<close>

text \<open>Four tracked products of user 7, a page showing a given price text in Target's
  price element, and an environment in which the pages of the first, third and fourth
  product load and the second product's request fails.\<close>

definition tv :: product where
  "tv = \<lparr> pid = 1, userId = 7, url = ''https://www.target.com/p/tv'', title = ''TV'',
          currentPrice = Num 100, targetPrice = Some (Num 90), image = [], store = ''Target'',
          category = None, priceHistory = [\<lparr>price = Num 100, date = 0\<rparr>], isActive = True,
          createdAt = 0, lastChecked = 0 \<rparr>"

definition radio :: product where
  "radio = \<lparr> pid = 2, userId = 7, url = ''https://www.target.com/p/radio'', title = ''Radio'',
             currentPrice = Num 40, targetPrice = None, image = [], store = ''Target'',
             category = None, priceHistory = [\<lparr>price = Num 40, date = 0\<rparr>], isActive = True,
             createdAt = 0, lastChecked = 0 \<rparr>"

definition lamp :: product where
  "lamp = \<lparr> pid = 3, userId = 7, url = ''https://www.target.com/p/lamp'', title = ''Lamp'',
            currentPrice = Num 20, targetPrice = Some (Num 15), image = [], store = ''Target'',
            category = None, priceHistory = [\<lparr>price = Num 20, date = 0\<rparr>], isActive = True,
            createdAt = 0, lastChecked = 0 \<rparr>"

definition kettle :: product where
  "kettle = \<lparr> pid = 4, userId = 7, url = ''https://www.target.com/p/kettle'', title = ''Kettle'',
              currentPrice = Num 80, targetPrice = Some (Num 40), image = [], store = ''Target'',
              category = None, priceHistory = [\<lparr>price = Num 80, date = 0\<rparr>], isActive = True,
              createdAt = 0, lastChecked = 0 \<rparr>"

definition target_page :: "string \<Rightarrow> document" where
  "target_page t = \<lparr> text_at = (\<lambda>q. if q = Target_price then t else []), src_at = (\<lambda>q. None) \<rparr>"

definition alice :: user where
  "alice = \<lparr> user_id = 7, username = ''alice'', email = ''alice@example.org'',
             password = ''x'', notifications = True, user_createdAt = 0 \<rparr>"

text \<open>A price text of 310 digits.\<close>

definition huge_price :: string where
  "huge_price = ''$1'' @ replicate 309 (CHR ''0'')"

definition shop :: env where
  "shop = \<lparr> fetch = (\<lambda>u. if u = ''https://www.target.com/p/tv'' then Some (target_page ''$85.00'')
                       else if u = ''https://www.target.com/p/lamp'' then Some (target_page ''$19.50'')
                       else if u = ''https://www.target.com/p/kettle'' then Some (target_page ''$34.00'')
                       else if u = ''https://www.target.com/p/gift'' then Some (target_page ''$0.00'')
                       else if u = ''https://www.target.com/p/yacht'' then Some (target_page huge_price)
                       else None),
            save_rejects = (\<lambda>p. False),
            find_rejects = False,
            findById = (\<lambda>i. if i = 7 then Inr (Some alice) else Inr None),
            sendMail_rejects = (\<lambda>m. False) \<rparr>"

definition w0 :: world where
  "w0 = \<lparr> products = [tv, radio, lamp], now = 1000, trace = [] \<rparr>"

definition w1 :: world where
  "w1 = \<lparr> products = [kettle], now = 1000, trace = [] \<rparr>"

text \<open>The same environment with no user record for any id, and with a collection that
  rejects every save.\<close>

definition shop_without_users :: env where
  "shop_without_users = shop\<lparr>findById := (\<lambda>i. Inr None)\<rparr>"

definition shop_rejecting_save :: env where
  "shop_rejecting_save = shop\<lparr>save_rejects := (\<lambda>p. True)\<rparr>"

section \<open>Reachable states\<close>

text \<open>
  The states the server can be in: it starts with an empty collection; a product is
  registered, its target changed, or it is removed; a sweep runs, or the loop body runs
  on a stored product (a state in the middle of a sweep); time passes.
\<close>

inductive reachable :: "world \<Rightarrow> bool" where
  start: "reachable \<lparr>products = [], now = t, trace = []\<rparr>"
| register: "reachable s \<Longrightarrow> reachable (snd (post_product e uid u tg s))"
| retarget: "reachable s \<Longrightarrow> reachable (snd (put_product uid i tg s))"
| remove: "reachable s \<Longrightarrow> reachable (snd (delete_product uid i s))"
| sweep: "reachable s \<Longrightarrow> reachable (checkPrices e s)"
| item: "reachable s \<Longrightarrow> p \<in> set (products s) \<Longrightarrow> reachable (check_product e p s)"
| tick: "reachable s \<Longrightarrow> reachable (s\<lparr>now := now s + d\<rparr>)"

text \<open>The bound on the history of a stored product.\<close>

definition hist_ok :: "product \<Rightarrow> bool" where
  "hist_ok p \<longleftrightarrow> 1 \<le> length (priceHistory p) \<and> length (priceHistory p) \<le> 30"

section \<open>Rounding to a double\<close>

lemma powi_nonneg_int: "0 \<le> b \<Longrightarrow> (2::rat) powi b = of_int (2 ^ nat b)"
  by (simp add: power_int_def)

lemma powi_pos [simp]: "0 < (2::rat) powi b"
  by (simp add: power_int_def)

lemma bitlen_ge_1: "0 < n \<Longrightarrow> 1 \<le> bitlen n"
  using bitlen_eq_zero_iff [of n] bitlen_nonneg [of n] by linarith

lemma bitlen_powi:
  assumes "0 < n"
  shows "(2::rat) powi (bitlen n - 1) \<le> of_int n" and "of_int n + 1 \<le> (2::rat) powi (bitlen n)"
proof -
  from bitlen_bounds [OF assms]
  have b: "2 ^ nat (bitlen n - 1) \<le> n" "n + 1 \<le> 2 ^ nat (bitlen n)" by simp_all
  have bl: "1 \<le> bitlen n" using assms by (rule bitlen_ge_1)
  show "(2::rat) powi (bitlen n - 1) \<le> of_int n"
    using b(1) bl by (simp add: powi_nonneg_int del: of_int_power)
  have "rat_of_int (n + 1) \<le> of_int (2 ^ nat (bitlen n))"
    using b(2) by (simp only: of_int_le_iff)
  then show "of_int n + 1 \<le> (2::rat) powi (bitlen n)"
    using bl by (simp add: powi_nonneg_int del: of_int_power)
qed

lemma binary_exponent_bounds:
  assumes "0 < x"
  shows "2 powi binary_exponent x \<le> x \<and> x < 2 powi (binary_exponent x + 1)"
proof (cases "1 \<le> x")
  case True
  define n where "n = \<lfloor>x\<rfloor>"
  have n: "0 < n" "of_int n \<le> x" "x < of_int n + 1"
    using True by (simp_all add: n_def) linarith+
  have e: "binary_exponent x = bitlen n - 1"
    using True by (simp add: binary_exponent_def n_def)
  from bitlen_powi [OF n(1)] n show ?thesis unfolding e by simp
next
  case False
  define n where "n = \<lceil>1 / x\<rceil> - 1"
  have n: "0 < n \<and> of_int n < 1 / x \<and> 1 / x \<le> of_int n + 1"
    using assms False n_def le_ceiling_iff by force
  then have n0: "0 < n" by simp
  note b = bitlen_powi [OF n0]
  have e: "binary_exponent x = - bitlen n"
    using False by (simp add: binary_exponent_def n_def)
  have "1 / x \<le> 2 powi bitlen n" using n b(2) by linarith
  then have "1 / 2 powi bitlen n \<le> x"
    using assms by (simp add: field_simps)
  then have lower: "2 powi (- bitlen n) \<le> x"
    by (simp add: power_int_minus_divide)
  have "2 powi (bitlen n - 1) < 1 / x" using n b(1) by linarith
  then have "x < 1 / 2 powi (bitlen n - 1)"
    using assms by (simp add: field_simps)
  then have "x < 2 powi (- (bitlen n - 1))"
    by (simp only: power_int_minus_divide)
  then have upper: "x < 2 powi (- bitlen n + 1)" by simp
  from lower upper show ?thesis unfolding e by simp
qed

lemma binary_exponent_unique:
  assumes "0 < x" and "2 powi e \<le> x" and "x < 2 powi (e + 1)"
  shows "binary_exponent x = e"
proof (rule ccontr)
  assume ne: "binary_exponent x \<noteq> e"
  let ?b = "binary_exponent x"
  from binary_exponent_bounds [OF assms(1)]
  have b: "2 powi ?b \<le> x" "x < 2 powi (?b + 1)" by simp_all
  show False
  proof (cases "?b < e")
    case True
    then have "(2::rat) powi (?b + 1) \<le> 2 powi e"
      by (intro power_int_increasing) simp_all
    with b(2) assms(2) show False by linarith
  next
    case False
    with ne have "e + 1 \<le> ?b" by simp
    then have "(2::rat) powi (e + 1) \<le> 2 powi ?b"
      by (intro power_int_increasing) simp_all
    with b(1) assms(3) show False by linarith
  qed
qed

lemma round_half_even_near:
  assumes "\<bar>of_int m - y\<bar> < 1 / 2"
  shows "round_half_even y = m"
proof -
  have "\<lfloor>y\<rfloor> = m \<or> \<lfloor>y\<rfloor> = m - 1" using assms by linarith
  then show ?thesis
  proof
    assume f: "\<lfloor>y\<rfloor> = m"
    then have "y - of_int m < 1 / 2" using assms by linarith
    with f show ?thesis by (simp add: round_half_even_def Let_def)
  next
    assume f: "\<lfloor>y\<rfloor> = m - 1"
    from assms have "of_int m - y < 1 / 2" by linarith
    then have "1 / 2 < y - of_int (m - 1)" by simp
    with f show ?thesis by (simp add: round_half_even_def Let_def)
  qed
qed

lemma round_half_even_nonneg: "0 \<le> y \<Longrightarrow> 0 \<le> round_half_even y"
  by (simp add: round_half_even_def Let_def)

lemma round_half_even_ge_floor: "\<lfloor>y\<rfloor> \<le> round_half_even y"
  by (simp add: round_half_even_def Let_def)

lemma round_pos_cases:
  "0 < x \<Longrightarrow> round_pos x = PosInf \<or> (\<exists>r. round_pos x = Num r \<and> 0 \<le> r)"
  by (simp add: round_pos_def Let_def round_half_even_nonneg)

lemma round_double_nonneg:
  "0 \<le> x \<Longrightarrow> round_double x = PosInf \<or> (\<exists>r. round_double x = Num r \<and> 0 \<le> r)"
  using round_pos_cases [of x] by (auto simp: round_double_def)

lemma round_pos_eq:
  assumes "0 < x" and "2 powi e \<le> x" and "x < 2 powi (e + 1)"
    and "- 1022 \<le> e"
    and "\<bar>of_int m - x / 2 powi (e - 52)\<bar> < 1 / 2"
    and "rat_of_int m * 2 powi (e - 52) < 2 powi 1024"
  shows "round_pos x = Num (of_int m * 2 powi (e - 52))"
proof -
  have e: "binary_exponent x = e" using assms(1-3) by (rule binary_exponent_unique)
  have q: "max e (- 1022) - 52 = e - 52" using assms(4) by simp
  have m: "round_half_even (x / 2 powi (e - 52)) = m"
    using assms(5) by (rule round_half_even_near)
  have "\<not> 2 powi 1024 \<le> rat_of_int m * 2 powi (e - 52)"
    using assms(6) by (simp only: not_le)
  then show ?thesis
    unfolding round_pos_def e Let_def q m by (simp only: if_False)
qed

lemma round_pos_overflow:
  assumes "2 powi 1024 \<le> x"
  shows "round_pos x = PosInf"
proof -
  have x: "0 < x" using assms powi_pos [of 1024] by linarith
  let ?e = "binary_exponent x"
  from binary_exponent_bounds [OF x] have b: "2 powi ?e \<le> x" "x < 2 powi (?e + 1)" by simp_all
  have e: "1024 \<le> ?e"
  proof (rule ccontr)
    assume "\<not> 1024 \<le> ?e"
    then have "?e + 1 \<le> 1024" by simp
    then have "(2::rat) powi (?e + 1) \<le> 2 powi 1024"
      by (intro power_int_increasing) simp_all
    with b(2) assms show False by linarith
  qed
  then have q: "max ?e (- 1022) - 52 = ?e - 52" by simp
  let ?y = "x / 2 powi (?e - 52)"
  have "2 powi ?e / 2 powi (?e - 52) \<le> ?y"
    using b(1) by (simp add: divide_right_mono)
  moreover have "(2::rat) powi ?e / 2 powi (?e - 52) = 2 powi 52"
    by (simp add: power_int_diff)
  ultimately have "of_int (2 ^ 52) \<le> ?y" by simp
  then have "2 ^ 52 \<le> \<lfloor>?y\<rfloor>" by (simp only: le_floor_iff)
  then have "2 ^ 52 \<le> round_half_even ?y"
    using round_half_even_ge_floor [of ?y] by linarith
  then have "rat_of_int (2 ^ 52) \<le> of_int (round_half_even ?y)"
    by (simp only: of_int_le_iff)
  then have "(2::rat) powi 52 * 2 powi (?e - 52) \<le> of_int (round_half_even ?y) * 2 powi (?e - 52)"
    by (intro mult_right_mono) simp_all
  moreover have "(2::rat) powi 52 * 2 powi (?e - 52) = 2 powi ?e"
    using power_int_add [of "2::rat" 52 "?e - 52"] by simp
  moreover have "(2::rat) powi 1024 \<le> 2 powi ?e"
    using e by (intro power_int_increasing) simp_all
  ultimately have "(2::rat) powi 1024 \<le> of_int (round_half_even ?y) * 2 powi (?e - 52)"
    by linarith
  then show ?thesis
    unfolding round_pos_def Let_def q by simp
qed

lemma round_double_samples:
  "round_double 0 = Num 0"
  "round_double 85 = Num 85"
  "round_double 34 = Num 34"
  "round_double 46 = Num 46"
  "round_double 25 = Num 25"
  "round_double (39 / 2) = Num (39 / 2)"
  "round_double (1 / 4) = Num (1 / 4)"
  "round_double (23 / 40) = Num (2589569785738035 / 4503599627370496)"
  "round_double (64739244643450875 / 1125899906842624) = Num (8092405580431359 / 140737488355328)"
  "round_double (129999 / 100) = Num (5717416483970089 / 4398046511104)"
proof -
  show "round_double 0 = Num 0" by (simp add: round_double_def)
  have "round_pos 85 = Num (of_int (85 * 2 ^ 46) * 2 powi (6 - 52))"
    by (rule round_pos_eq) simp_all
  then show "round_double 85 = Num 85" by (simp add: round_double_def)
  have "round_pos 34 = Num (of_int (34 * 2 ^ 47) * 2 powi (5 - 52))"
    by (rule round_pos_eq) simp_all
  then show "round_double 34 = Num 34" by (simp add: round_double_def)
  have "round_pos 46 = Num (of_int (46 * 2 ^ 47) * 2 powi (5 - 52))"
    by (rule round_pos_eq) simp_all
  then show "round_double 46 = Num 46" by (simp add: round_double_def)
  have "round_pos 25 = Num (of_int (25 * 2 ^ 48) * 2 powi (4 - 52))"
    by (rule round_pos_eq) simp_all
  then show "round_double 25 = Num 25" by (simp add: round_double_def)
  have "round_pos (39 / 2) = Num (of_int (39 * 2 ^ 47) * 2 powi (4 - 52))"
    by (rule round_pos_eq) simp_all
  then show "round_double (39 / 2) = Num (39 / 2)" by (simp add: round_double_def)
  have "round_pos (1 / 4) = Num (of_int (2 ^ 52) * 2 powi (- 2 - 52))"
    by (rule round_pos_eq) simp_all
  then show "round_double (1 / 4) = Num (1 / 4)" by (simp add: round_double_def)
  have "round_pos (23 / 40) = Num (of_int 5179139571476070 * 2 powi (- 1 - 52))"
    by (rule round_pos_eq) simp_all
  then show "round_double (23 / 40) = Num (2589569785738035 / 4503599627370496)"
    by (simp add: round_double_def)
  have "round_pos (64739244643450875 / 1125899906842624)
      = Num (of_int 8092405580431359 * 2 powi (5 - 52))"
    by (rule round_pos_eq) simp_all
  then show "round_double (64739244643450875 / 1125899906842624) = Num (8092405580431359 / 140737488355328)"
    by (simp add: round_double_def)
  have "round_pos (129999 / 100) = Num (of_int 5717416483970089 * 2 powi (10 - 52))"
    by (rule round_pos_eq) simp_all
  then show "round_double (129999 / 100) = Num (5717416483970089 / 4398046511104)"
    by (simp add: round_double_def)
qed

lemma literal_value_nonneg: "0 \<le> literal_value ip fp"
  by (simp add: literal_value_def)

lemma parseFloat_cases:
  "parseFloat s = NaN \<or> parseFloat s = PosInf \<or> (\<exists>r. parseFloat s = Num r \<and> 0 \<le> r)"
  using round_double_nonneg [OF literal_value_nonneg]
  by (simp add: parseFloat_def Let_def)

lemma digits_val_snoc: "digits_val (ds @ [c]) = 10 * digits_val ds + digit_val c"
  by (simp add: digits_val_def)

lemma digits_val_zeros: "digits_val (ds @ replicate n (CHR ''0'')) = digits_val ds * 10 ^ n"
proof (induction n)
  case 0
  then show ?case by simp
next
  case (Suc n)
  have "ds @ replicate (Suc n) (CHR ''0'') = (ds @ replicate n (CHR ''0'')) @ [CHR ''0'']"
    by (simp add: replicate_append_same)
  then show ?case
    by (simp only: digits_val_snoc Suc.IH) (simp add: digit_val_def)
qed

lemma parseFloat_huge: "parseFloat (strip_price huge_price) = PosInf"
proof -
  let ?s = "''1'' @ replicate 309 (CHR ''0'')"
  have all: "\<forall>c\<in>set ?s. is_digit c" by (simp add: is_digit_def)
  have st: "strip_price huge_price = ?s"
    by (simp add: huge_price_def strip_price_def is_digit_def)
  have tk: "takeWhile is_digit ?s = ?s" "dropWhile is_digit ?s = []"
    using all by (simp_all only: takeWhile_eq_all_conv dropWhile_eq_Nil_conv)
  have "digits_val ?s = 1 * 10 ^ 309"
    by (subst digits_val_zeros) (simp add: digits_val_def digit_val_def)
  then have lv: "literal_value ?s [] = 10 ^ 309"
    by (simp add: literal_value_def digits_val_def)
  have "round_pos (10 ^ 309) = PosInf"
    by (rule round_pos_overflow) simp
  then have rd: "round_double (10 ^ 309) = PosInf" by (simp add: round_double_def)
  show ?thesis
    unfolding st using tk lv rd by (simp add: parseFloat_def Let_def)
qed

section \<open>Properties of the extraction\<close>

lemma price_result_parse: "price_result so = Some x \<Longrightarrow> \<exists>s. x = parseFloat s"
  by (cases so) (auto split: if_splits)

lemma strip_price_insert:
  "\<not> is_digit c \<Longrightarrow> c \<noteq> CHR ''.'' \<Longrightarrow> strip_price (xs @ c # ys) = strip_price (xs @ ys)"
  by (simp add: strip_price_def)

lemma scraped_price_cases:
  "sd_price (scrape_page u d) = None \<or> sd_price (scrape_page u d) = Some NaN
   \<or> sd_price (scrape_page u d) = Some PosInf
   \<or> (\<exists>r. sd_price (scrape_page u d) = Some (Num r) \<and> 0 \<le> r)"
proof (cases "sd_price (scrape_page u d)")
  case None then show ?thesis by simp
next
  case (Some x)
  then have "price_result (v_price (store_branch u d)) = Some x"
    by (simp add: scrape_page_def Let_def)
  then obtain t where "x = parseFloat t" using price_result_parse by blast
  then show ?thesis using Some parseFloat_cases [of t] by auto
qed

lemma parse_samples:
  "parseFloat (strip_price ''$85.00'') = Num 85"
  "parseFloat (strip_price ''$19.50'') = Num (39 / 2)"
  "parseFloat (strip_price ''$34.00'') = Num 34"
  "parseFloat (strip_price ''$0.00'') = Num 0"
  "parseFloat (strip_price ''$1,299.99'') = round_double (129999 / 100)"
  "parseFloat (strip_price ''1299.99'') = round_double (129999 / 100)"
  by (simp_all add: parseFloat_def literal_value_def strip_price_def is_digit_def
        digits_val_def digit_val_def round_double_samples)

lemma target_page_price:
  "str_includes u ''target.'' \<Longrightarrow> \<not> str_includes u ''amazon.'' \<Longrightarrow> \<not> str_includes u ''ebay.''
   \<Longrightarrow> \<not> str_includes u ''walmart.'' \<Longrightarrow> \<not> str_includes u ''bestbuy.''
   \<Longrightarrow> sd_price (scrape_page u (target_page t))
       = (if strip_price t \<noteq> [] then Some (parseFloat (strip_price t)) else None)"
  by (simp add: scrape_page_def store_branch_def target_page_def Let_def)

lemma sample_urls:
  "str_includes ''https://www.target.com/p/tv'' ''target.''"
  "\<not> str_includes ''https://www.target.com/p/tv'' ''amazon.''"
  "\<not> str_includes ''https://www.target.com/p/tv'' ''ebay.''"
  "\<not> str_includes ''https://www.target.com/p/tv'' ''walmart.''"
  "\<not> str_includes ''https://www.target.com/p/tv'' ''bestbuy.''"
  "str_includes ''https://www.target.com/p/lamp'' ''target.''"
  "\<not> str_includes ''https://www.target.com/p/lamp'' ''amazon.''"
  "\<not> str_includes ''https://www.target.com/p/lamp'' ''ebay.''"
  "\<not> str_includes ''https://www.target.com/p/lamp'' ''walmart.''"
  "\<not> str_includes ''https://www.target.com/p/lamp'' ''bestbuy.''"
  "str_includes ''https://www.target.com/p/kettle'' ''target.''"
  "\<not> str_includes ''https://www.target.com/p/kettle'' ''amazon.''"
  "\<not> str_includes ''https://www.target.com/p/kettle'' ''ebay.''"
  "\<not> str_includes ''https://www.target.com/p/kettle'' ''walmart.''"
  "\<not> str_includes ''https://www.target.com/p/kettle'' ''bestbuy.''"
  "str_includes ''https://www.target.com/p/gift'' ''target.''"
  "\<not> str_includes ''https://www.target.com/p/gift'' ''amazon.''"
  "\<not> str_includes ''https://www.target.com/p/gift'' ''ebay.''"
  "\<not> str_includes ''https://www.target.com/p/gift'' ''walmart.''"
  "\<not> str_includes ''https://www.target.com/p/gift'' ''bestbuy.''"
  "str_includes ''https://www.target.com/p/yacht'' ''target.''"
  "\<not> str_includes ''https://www.target.com/p/yacht'' ''amazon.''"
  "\<not> str_includes ''https://www.target.com/p/yacht'' ''ebay.''"
  "\<not> str_includes ''https://www.target.com/p/yacht'' ''walmart.''"
  "\<not> str_includes ''https://www.target.com/p/yacht'' ''bestbuy.''"
  by simp_all

lemma strip_huge_nonempty: "strip_price huge_price \<noteq> []"
  by (simp add: huge_price_def strip_price_def is_digit_def)

lemma sample_prices:
  "sd_price (scrape_page ''https://www.target.com/p/tv'' (target_page ''$85.00'')) = Some (Num 85)"
  "sd_price (scrape_page ''https://www.target.com/p/lamp'' (target_page ''$19.50'')) = Some (Num (39 / 2))"
  "sd_price (scrape_page ''https://www.target.com/p/kettle'' (target_page ''$34.00'')) = Some (Num 34)"
  "sd_price (scrape_page ''https://www.target.com/p/gift'' (target_page ''$0.00'')) = Some (Num 0)"
  "sd_price (scrape_page ''https://www.target.com/p/yacht'' (target_page huge_price)) = Some PosInf"
proof -
  have ne: "strip_price ''$85.00'' \<noteq> []" "strip_price ''$19.50'' \<noteq> []"
    "strip_price ''$34.00'' \<noteq> []" "strip_price ''$0.00'' \<noteq> []"
    by (simp_all add: strip_price_def is_digit_def)
  show "sd_price (scrape_page ''https://www.target.com/p/tv'' (target_page ''$85.00'')) = Some (Num 85)"
    by (simp add: target_page_price [OF sample_urls(1-5)] ne parse_samples)
  show "sd_price (scrape_page ''https://www.target.com/p/lamp'' (target_page ''$19.50'')) = Some (Num (39 / 2))"
    by (simp add: target_page_price [OF sample_urls(6-10)] ne parse_samples)
  show "sd_price (scrape_page ''https://www.target.com/p/kettle'' (target_page ''$34.00'')) = Some (Num 34)"
    by (simp add: target_page_price [OF sample_urls(11-15)] ne parse_samples)
  show "sd_price (scrape_page ''https://www.target.com/p/gift'' (target_page ''$0.00'')) = Some (Num 0)"
    by (simp add: target_page_price [OF sample_urls(16-20)] ne parse_samples)
  show "sd_price (scrape_page ''https://www.target.com/p/yacht'' (target_page huge_price)) = Some PosInf"
    by (simp add: target_page_price [OF sample_urls(21-25)] strip_huge_nonempty parseFloat_huge)
qed

text \<open>
  Claim C7 as stated fails for a price text beyond the range of doubles. The page shows
  a 1 followed by 309 zeros; the stripped text is parsed to \<open>Infinity\<close>, which is
  truthy, so the price counts as extracted, and it is not a decimal number.
\<close>

theorem price_not_decimal_counterexample:
  "fetch shop ''https://www.target.com/p/yacht'' = Some (target_page huge_price)
   \<and> length huge_price = 311
   \<and> sd_price (scrape_page ''https://www.target.com/p/yacht'' (target_page huge_price)) = Some PosInf
   \<and> truthy PosInf
   \<and> new_price shop ''https://www.target.com/p/yacht'' = Some PosInf"
proof -
  have f: "fetch shop ''https://www.target.com/p/yacht'' = Some (target_page huge_price)"
    by (simp add: shop_def)
  have l: "length huge_price = 311" by (simp add: huge_price_def)
  from f l show ?thesis
    by (simp add: new_price_def sample_prices)
qed

text \<open>
  Claim C7, amended. The replacement removes every character that is neither a digit nor
  a full stop and keeps the others, so inserting such a character anywhere changes
  nothing; \<open>$1,299.99\<close> and \<open>1299.99\<close> both give the same Number, the double nearest
  to 1299.99; and whatever the URL and the page, a price returned by \<open>scrapePrice\<close> that
  is a number (not \<open>null\<close>, not \<open>NaN\<close>) is a finite number that is not negative, or
  \<open>Infinity\<close>.
\<close>

theorem price_normalisation:
  "(\<not> is_digit c \<and> c \<noteq> CHR ''.'' \<longrightarrow> strip_price (xs @ c # ys) = strip_price (xs @ ys))
   \<and> set (strip_price t) = {c \<in> set t. is_digit c \<or> c = CHR ''.''}
   \<and> price_result (Some (strip_price ''$1,299.99'')) = Some (round_double (129999 / 100))
   \<and> price_result (Some (strip_price ''1299.99'')) = Some (round_double (129999 / 100))
   \<and> round_double (129999 / 100) = Num (5717416483970089 / 4398046511104)
   \<and> \<bar>5717416483970089 / 4398046511104 - 129999 / 100\<bar> \<le> (1 / 2 ^ 43 :: rat)
   \<and> (sd_price (scrape_page u d) = Some x \<and> x \<noteq> NaN
        \<longrightarrow> x = PosInf \<or> (\<exists>r. x = Num r \<and> 0 \<le> r))"
proof (intro conjI impI)
  show "set (strip_price t) = {c \<in> set t. is_digit c \<or> c = CHR ''.''}"
    by (simp add: strip_price_def)
  have ne: "strip_price ''$1,299.99'' \<noteq> []" "strip_price ''1299.99'' \<noteq> []"
    by (simp_all add: strip_price_def is_digit_def)
  show "price_result (Some (strip_price ''$1,299.99'')) = Some (round_double (129999 / 100))"
    using ne by (simp add: parse_samples)
  show "price_result (Some (strip_price ''1299.99'')) = Some (round_double (129999 / 100))"
    using ne by (simp add: parse_samples)
  show "round_double (129999 / 100) = Num (5717416483970089 / 4398046511104)"
    by (rule round_double_samples)
  show "\<bar>5717416483970089 / 4398046511104 - 129999 / 100\<bar> \<le> (1 / 2 ^ 43 :: rat)"
    by simp
next
  assume "\<not> is_digit c \<and> c \<noteq> CHR ''.''"
  then show "strip_price (xs @ c # ys) = strip_price (xs @ ys)"
    by (simp add: strip_price_insert)
next
  assume a: "sd_price (scrape_page u d) = Some x \<and> x \<noteq> NaN"
  with scraped_price_cases [of u d] show "x = PosInf \<or> (\<exists>r. x = Num r \<and> 0 \<le> r)"
    by auto
qed

text \<open>
  A comma inserted into a price text, and the sample page showing \<open>$85.00\<close>.
\<close>

theorem price_normalisation_witness:
  "strip_price (''$1'' @ CHR '','' # ''299.99'') = strip_price (''$1'' @ ''299.99'')
   \<and> sd_price (scrape_page ''https://www.target.com/p/tv'' (target_page ''$85.00'')) = Some (Num 85)
   \<and> Num 85 \<noteq> NaN
   \<and> (Num 85 = PosInf \<or> (\<exists>r. Num 85 = Num r \<and> 0 \<le> r))"
proof -
  have c: "\<not> is_digit (CHR '','') \<and> CHR '','' \<noteq> CHR ''.''"
    by (simp add: is_digit_def)
  from price_normalisation [where c = "CHR '',''" and xs = "''$1''" and ys = "''299.99''"
      and u = "''https://www.target.com/p/tv''" and d = "target_page ''$85.00''" and x = "Num 85"]
  show ?thesis using c sample_prices(1) by simp
qed

section \<open>The loop body of \<open>checkPrices\<close>\<close>

lemma emit_simps [simp]:
  "products (emit ev s) = products s" "now (emit ev s) = now s"
  "trace (emit ev s) = trace s @ [ev]"
  by (simp_all add: emit_def)

lemma pace_simps [simp]:
  "products (pace s) = products s" "now (pace s) = now s + 2000"
  "trace (pace s) = trace s @ [Delay 2000]"
  by (simp_all add: pace_def)

lemma sendNotification_simps [simp]:
  "products (sendNotification e u p a b s) = products s"
  "now (sendNotification e u p a b s) = now s"
  by (simp_all add: sendNotification_def Let_def)

lemma sendNotification_trace:
  "trace (sendNotification e u p a b s) = trace s @
     (if \<not> notifications u then []
      else if sendMail_rejects e (mailOptions u p a b)
           then [Mail_failed (mailOptions u p a b), Log Email_error]
           else [Mail_delivered (mailOptions u p a b), Log (Notification_sent (email u))])"
  by (simp add: sendNotification_def Let_def)

lemma new_price_Some_iff:
  "new_price e u = Some v \<longleftrightarrow>
     (\<exists>d. fetch e u = Some d \<and> sd_price (scrape_page u d) = Some v \<and> truthy v)"
  by (auto simp: new_price_def split: option.splits if_splits)

lemma new_price_pos:
  assumes "new_price e u = Some v" shows "js_lt (Num 0) v"
proof -
  from assms obtain d where d: "sd_price (scrape_page u d) = Some v" and v: "truthy v"
    by (auto simp: new_price_Some_iff)
  from scraped_price_cases [of u d] d v show ?thesis by auto
qed

lemma new_price_SomeI:
  "fetch e u = Some d \<Longrightarrow> sd_price (scrape_page u d) = Some v \<Longrightarrow> truthy v \<Longrightarrow> new_price e u = Some v"
  by (simp add: new_price_def)

lemma new_price_None_iff:
  "new_price e u = None \<longleftrightarrow>
     (fetch e u = None \<or> (\<exists>d. fetch e u = Some d \<and> \<not> truthy_opt (sd_price (scrape_page u d))))"
  by (auto simp: new_price_def split: option.splits if_splits)

lemma check_product_fail:
  "new_price e (url p) = None \<Longrightarrow> check_product e p s = pace (snd (scrapePrice e (url p) s))"
  by (auto simp: new_price_def check_product_def scrapePrice_def split: option.splits if_splits)

lemma check_product_ok:
  "new_price e (url p) = Some v \<Longrightarrow>
   check_product e p s =
     (let s0 = emit (Request (url p)) s; oldPrice = currentPrice p;
          p' = update_product p v (now s)
      in if save_rejects e p' then emit (Log (Error_checking (title p'))) s0
         else
           (let s1 = emit (Saved p') (s0\<lparr>products := save_doc (products s) p'\<rparr>)
            in if price_dropped p' v oldPrice then
                 (case findById e (userId p') of
                    Inl Rejected \<Rightarrow> emit (Log (Error_checking (title p'))) s1
                  | Inr None \<Rightarrow> pace (emit (Log (Updated (title p') oldPrice v)) s1)
                  | Inr (Some u) \<Rightarrow>
                      pace (emit (Log (Updated (title p') oldPrice v))
                        (sendNotification e u p' oldPrice v
                           (emit (Notifier u p' oldPrice v) s1))))
               else pace (emit (Log (Updated (title p') oldPrice v)) s1)))"
  by (auto simp: new_price_def check_product_def scrapePrice_def Let_def split: option.splits if_splits)


lemma update_product_fields [simp]:
  "pid (update_product p v t) = pid p" "userId (update_product p v t) = userId p"
  "url (update_product p v t) = url p" "title (update_product p v t) = title p"
  "targetPrice (update_product p v t) = targetPrice p"
  "isActive (update_product p v t) = isActive p"
  "currentPrice (update_product p v t) = v" "lastChecked (update_product p v t) = t"
  by (simp_all add: update_product_def Let_def)

lemma price_dropped_update [simp]:
  "price_dropped (update_product p v t) a b = price_dropped p a b"
  by (simp add: price_dropped_def)

lemma scrapePrice_state:
  "products (snd (scrapePrice e u s)) = products s"
  "now (snd (scrapePrice e u s)) = now s"
  "trace (snd (scrapePrice e u s)) =
     trace s @ Request u # (if fetch e u = None then [Log Scraping_error] else [])"
  by (simp_all add: scrapePrice_def split: option.splits)

lemma products_check_product_fail:
  "new_price e (url p) = None \<Longrightarrow> products (check_product e p s) = products s"
  by (simp add: check_product_fail scrapePrice_state)


lemma step_events_fail:
  "new_price e (url p) = None \<Longrightarrow>
   step_events e p s =
     Request (url p) # (if fetch e (url p) = None then [Log Scraping_error] else []) @ [Delay 2000]"
  by (simp add: step_events_def check_product_fail scrapePrice_state)

lemma products_check_product_ok:
  "new_price e (url p) = Some v \<Longrightarrow>
   products (check_product e p s) =
     (if save_rejects e (update_product p v (now s)) then products s
      else save_doc (products s) (update_product p v (now s)))"
  by (simp add: check_product_ok Let_def split: sum.splits option.splits failure.splits)

lemma step_events_ok:
  "new_price e (url p) = Some v \<Longrightarrow>
   step_events e p s =
     Request (url p) #
     (let p' = update_product p v (now s); a = currentPrice p in
      if save_rejects e p' then [Log (Error_checking (title p))]
      else Saved p' #
        (if price_dropped p v a then
           (case findById e (userId p) of
              Inl r \<Rightarrow> [Log (Error_checking (title p))]
            | Inr None \<Rightarrow> [Log (Updated (title p) a v), Delay 2000]
            | Inr (Some u) \<Rightarrow>
                Notifier u p' a v #
                (if \<not> notifications u then []
                 else if sendMail_rejects e (mailOptions u p' a v)
                      then [Mail_failed (mailOptions u p' a v), Log Email_error]
                      else [Mail_delivered (mailOptions u p' a v), Log (Notification_sent (email u))])
                @ [Log (Updated (title p) a v), Delay 2000])
         else [Log (Updated (title p) a v), Delay 2000]))"
  by (simp add: step_events_def check_product_ok Let_def sendNotification_trace
        split: sum.splits option.splits failure.splits)

lemma trace_check_product: "trace (check_product e p s) = trace s @ step_events e p s"
proof (cases "new_price e (url p)")
  case None
  then show ?thesis
    by (simp add: step_events_def check_product_fail scrapePrice_state)
next
  case (Some v)
  then show ?thesis
    by (simp add: step_events_def check_product_ok Let_def sendNotification_trace
        split: sum.splits option.splits failure.splits)
qed

lemma shop_new_price:
  "new_price shop (url tv) = Some (Num 85)"
  "new_price shop (url radio) = None"
  "new_price shop (url lamp) = Some (Num (39 / 2))"
  by (simp_all add: new_price_def shop_def tv_def radio_def lamp_def sample_prices)

lemma new_price_env_update [simp]:
  "new_price (e\<lparr>findById := fb\<rparr>) u = new_price e u"
  "new_price (e\<lparr>sendMail_rejects := sr\<rparr>) u = new_price e u"
  "new_price (e\<lparr>save_rejects := sv\<rparr>) u = new_price e u"
  by (simp_all add: new_price_def)

lemma js_le_pos_truthy: "js_lt (Num 0) v \<Longrightarrow> js_le v t \<Longrightarrow> truthy t"
  by (cases v; cases t) auto

lemma price_dropped_iff:
  "js_lt (Num 0) v \<Longrightarrow>
   price_dropped p v a \<longleftrightarrow> (\<exists>t. targetPrice p = Some t \<and> js_le v t) \<and> js_lt v a"
  by (auto simp: price_dropped_def js_le_pos_truthy split: option.splits)

text \<open>
  Claim C1 as stated fails. The product costs 100 with target 90 and the page shows 85,
  so the target is set, the new price is at most the target and below the old price; but
  \<open>User.findById\<close> finds no user, the test \<open>if (user)\<close> of line 430 fails and
  \<open>sendNotification\<close> is not called: the pass through the loop body consists of the
  request, the save, the log line and the delay.
\<close>

theorem notifier_iff_counterexample:
  "fetch shop_without_users (url tv) = Some (target_page ''$85.00'')
   \<and> sd_price (scrape_page (url tv) (target_page ''$85.00'')) = Some (Num 85)
   \<and> isActive tv \<and> targetPrice tv = Some (Num 90) \<and> currentPrice tv = Num 100
   \<and> js_le (Num 85) (Num 90) \<and> js_lt (Num 85) (Num 100)
   \<and> findById shop_without_users (userId tv) = Inr None
   \<and> step_events shop_without_users tv w0 =
       [Request (url tv), Saved (update_product tv (Num 85) 1000), Log (Updated ''TV'' (Num 100) (Num 85)), Delay 2000]"
proof -
  have np: "new_price shop_without_users (url tv) = Some (Num 85)"
    by (simp add: shop_without_users_def shop_new_price)
  have "step_events shop_without_users tv w0 =
       [Request (url tv), Saved (update_product tv (Num 85) 1000), Log (Updated ''TV'' (Num 100) (Num 85)), Delay 2000]"
    by (subst step_events_ok [OF np])
       (simp add: Let_def price_dropped_def shop_without_users_def shop_def tv_def w0_def)
  moreover have "fetch shop_without_users (url tv) = Some (target_page ''$85.00'')"
    by (simp add: shop_without_users_def shop_def tv_def)
  moreover have "sd_price (scrape_page (url tv) (target_page ''$85.00'')) = Some (Num 85)"
    by (simp add: tv_def sample_prices)
  moreover have "findById shop_without_users (userId tv) = Inr None"
    by (simp add: shop_without_users_def)
  ultimately show ?thesis by (simp add: tv_def)
qed

text \<open>
  Claim C1, amended. For a product whose page loads with a truthy price \<open>v\<close>,
  \<open>sendNotification\<close> is called (with user \<open>u\<close>, product \<open>q\<close>, old price \<open>a\<close>, new
  price \<open>b\<close>) if and only if the save of the updated product did not reject, the owner
  \<open>u\<close> was found, the target price is set, \<open>v\<close> is at most the target, and \<open>v\<close> is
  strictly below the current price before the update (both in JavaScript's comparison of
  Numbers); the arguments are then the updated product, the old price and \<open>v\<close>. So there is no call when the new price equals the
  old one or exceeds the target.
\<close>

theorem notifier_invoked_iff:
  assumes "fetch e (url p) = Some d" and "sd_price (scrape_page (url p) d) = Some v"
    and "truthy v"
  shows "Notifier u q a b \<in> set (step_events e p s) \<longleftrightarrow>
     (\<not> save_rejects e (update_product p v (now s)) \<and> findById e (userId p) = Inr (Some u)
      \<and> (\<exists>t. targetPrice p = Some t \<and> js_le v t) \<and> js_lt v (currentPrice p)
      \<and> q = update_product p v (now s) \<and> a = currentPrice p \<and> b = v)"
proof -
  from assms have np: "new_price e (url p) = Some v" by (rule new_price_SomeI)
  then have pos: "js_lt (Num 0) v" by (rule new_price_pos)
  show ?thesis
    unfolding step_events_ok [OF np] Let_def price_dropped_iff [OF pos]
    by (auto split: sum.splits option.splits)
qed

text \<open>
  The sample product at 100 with target 90 and a page showing 85: the notifier is called.
\<close>

theorem notifier_invoked_iff_witness:
  "Notifier alice (update_product tv (Num 85) 1000) (Num 100) (Num 85) \<in> set (step_events shop tv w0)"
proof -
  have f: "fetch shop (url tv) = Some (target_page ''$85.00'')" by (simp add: shop_def tv_def)
  have pr: "sd_price (scrape_page (url tv) (target_page ''$85.00'')) = Some (Num 85)"
    by (simp add: tv_def sample_prices)
  have nz: "truthy (Num 85)" by simp
  from notifier_invoked_iff [OF f pr nz, of alice "update_product tv (Num 85) 1000" "Num 100" "Num 85" w0]
  show ?thesis by (simp add: shop_def tv_def w0_def)
qed

lemma save_doc_mem:
  "p \<in> set db \<Longrightarrow> pid p' = pid p \<Longrightarrow> p' \<in> set (save_doc db p')"
  by (auto simp: save_doc_def)

lemma priceHistory_update_product:
  "priceHistory (update_product p v t) = slice_last 30 (priceHistory p @ [\<lparr>price = v, date = t\<rparr>])"
  by (simp add: update_product_def Let_def slice_last_def)

lemma mail_failed_saved:
  assumes "Mail_failed m \<in> set (step_events e p s)"
  shows "\<exists>v. new_price e (url p) = Some v \<and> \<not> save_rejects e (update_product p v (now s))"
proof (cases "new_price e (url p)")
  case None
  with assms show ?thesis by (simp add: step_events_fail split: if_splits)
next
  case (Some v)
  with assms show ?thesis
    by (auto simp: step_events_ok Let_def split: if_splits sum.splits option.splits)
qed

text \<open>
  Claim C9. When \<open>transporter.sendMail\<close> rejects during the check of a product, the
  page had loaded with a price \<open>v\<close> and the collection after the pass is the collection
  before it with the updated product saved: current price \<open>v\<close>, last check at the
  current time, and the history with the new observation appended (cut to its last 30).
  The collection after the pass does not depend on whether \<open>sendMail\<close> rejects.
\<close>

theorem update_survives_mail_failure:
  assumes "Mail_failed m \<in> set (step_events e p s)"
  shows "\<exists>d v. fetch e (url p) = Some d \<and> sd_price (scrape_page (url p) d) = Some v \<and> truthy v
           \<and> products (check_product e p s) = save_doc (products s) (update_product p v (now s))
           \<and> (p \<in> set (products s) \<longrightarrow> update_product p v (now s) \<in> set (products (check_product e p s)))
           \<and> currentPrice (update_product p v (now s)) = v
           \<and> lastChecked (update_product p v (now s)) = now s
           \<and> priceHistory (update_product p v (now s)) =
               slice_last 30 (priceHistory p @ [\<lparr>price = v, date = now s\<rparr>])
           \<and> products (check_product (e\<lparr>sendMail_rejects := sr\<rparr>) p s) = products (check_product e p s)"
proof -
  from mail_failed_saved [OF assms] obtain v
    where np: "new_price e (url p) = Some v"
      and sv: "\<not> save_rejects e (update_product p v (now s))" by blast
  from np obtain d where d: "fetch e (url p) = Some d"
      "sd_price (scrape_page (url p) d) = Some v \<and> truthy v"
    by (auto simp: new_price_Some_iff)
  have pr: "products (check_product e p s) = save_doc (products s) (update_product p v (now s))"
    using np sv by (simp add: products_check_product_ok)
  have mem: "p \<in> set (products s) \<longrightarrow> update_product p v (now s) \<in> set (products (check_product e p s))"
    unfolding pr by (simp add: save_doc_mem)
  have ind: "products (check_product (e\<lparr>sendMail_rejects := sr\<rparr>) p s) = products (check_product e p s)"
    using np by (simp add: products_check_product_ok)
  from d pr mem ind show ?thesis
    by (intro exI [of _ d] exI [of _ v]) (simp add: priceHistory_update_product)
qed

text \<open>
  The sample sweep step with a mail transport that always rejects.
\<close>

theorem update_survives_mail_failure_witness:
  "Mail_failed (mailOptions alice (update_product tv (Num 85) 1000) (Num 100) (Num 85))
     \<in> set (step_events (shop\<lparr>sendMail_rejects := (\<lambda>m. True)\<rparr>) tv w0)
   \<and> (\<exists>d v. fetch (shop\<lparr>sendMail_rejects := (\<lambda>m. True)\<rparr>) (url tv) = Some d
         \<and> sd_price (scrape_page (url tv) d) = Some v \<and> truthy v
         \<and> products (check_product (shop\<lparr>sendMail_rejects := (\<lambda>m. True)\<rparr>) tv w0)
             = save_doc (products w0) (update_product tv v (now w0))
         \<and> update_product tv v (now w0)
             \<in> set (products (check_product (shop\<lparr>sendMail_rejects := (\<lambda>m. True)\<rparr>) tv w0)))"
proof -
  let ?e = "shop\<lparr>sendMail_rejects := (\<lambda>m. True)\<rparr>"
  have np: "new_price ?e (url tv) = Some (Num 85)" by (simp add: shop_new_price)
  have mf: "Mail_failed (mailOptions alice (update_product tv (Num 85) 1000) (Num 100) (Num 85))
     \<in> set (step_events ?e tv w0)"
    by (simp add: step_events_ok [OF np] Let_def price_dropped_def)
       (simp add: shop_def tv_def w0_def alice_def)
  have mem: "tv \<in> set (products w0)" by (simp add: w0_def)
  from update_survives_mail_failure [OF mf, of "\<lambda>m. True"] mem mf show ?thesis by blast
qed



section \<open>The sweep\<close>

lemma pid_save_doc: "map pid (save_doc db p) = map pid db"
  by (induction db) (auto simp: save_doc_def)

lemma length_save_doc [simp]: "length (save_doc db p) = length db"
  by (simp add: save_doc_def)

lemma nth_save_doc:
  "i < length db \<Longrightarrow> save_doc db p ! i = (if pid (db ! i) = pid p then p else db ! i)"
  by (simp add: save_doc_def)

lemma pids_check_product: "map pid (products (check_product e q s)) = map pid (products s)"
  by (cases "new_price e (url q)")
     (simp_all add: products_check_product_fail products_check_product_ok pid_save_doc)

lemma pids_check_loop: "map pid (products (check_loop e ps s)) = map pid (products s)"
  by (induction ps arbitrary: s) (simp_all add: pids_check_product)

lemma length_check_product: "length (products (check_product e q s)) = length (products s)"
  using pids_check_product [of e q s] by (metis length_map)


lemma nth_check_product_other:
  assumes "i < length (products s)"
    and "pid q \<noteq> pid (products s ! i) \<or> new_price e (url q) = None"
  shows "products (check_product e q s) ! i = products s ! i"
proof (cases "new_price e (url q)")
  case None
  then show ?thesis by (simp add: products_check_product_fail)
next
  case (Some v)
  with assms show ?thesis
    by (simp add: products_check_product_ok nth_save_doc)
qed

lemma nth_check_loop_untouched:
  assumes "i < length (products s)"
    and "\<forall>q\<in>set ps. pid q \<noteq> pid (products s ! i) \<or> new_price e (url q) = None"
  shows "products (check_loop e ps s) ! i = products s ! i"
  using assms
proof (induction ps arbitrary: s)
  case Nil
  then show ?case by simp
next
  case (Cons q ps)
  have step: "products (check_product e q s) ! i = products s ! i"
    using Cons.prems by (simp add: nth_check_product_other)
  have "products (check_loop e ps (check_product e q s)) ! i = products (check_product e q s) ! i"
    using Cons.prems step by (intro Cons.IH) (simp_all add: length_check_product)
  with step show ?case by simp
qed

lemma nth_check_product_self:
  assumes "i < length (products s)" and "pid (products s ! i) = pid q"
    and "new_price e (url q) = Some v"
    and "\<not> save_rejects e (update_product q v (now s))"
  shows "products (check_product e q s) ! i = update_product q v (now s)"
  using assms by (simp add: products_check_product_ok nth_save_doc)

lemma nth_check_loop_updated:
  assumes "distinct (map pid ps)" and "q \<in> set ps"
    and "i < length (products s)" and "pid (products s ! i) = pid q"
    and "new_price e (url q) = Some v"
    and "\<forall>t. \<not> save_rejects e (update_product q v t)"
  shows "\<exists>t. products (check_loop e ps s) ! i = update_product q v t"
  using assms(1-4)
proof (induction ps arbitrary: s)
  case Nil
  then show ?case by simp
next
  case (Cons r ps)
  show ?case
  proof (cases "r = q")
    case True
    let ?s' = "check_product e q s"
    have here: "products ?s' ! i = update_product q v (now s)"
      using Cons.prems assms(5,6) by (simp add: nth_check_product_self)
    have "\<forall>x\<in>set ps. pid x \<noteq> pid (products ?s' ! i)"
      using Cons.prems(1) True here by (auto simp: image_iff)
    then have "products (check_loop e ps ?s') ! i = products ?s' ! i"
      using Cons.prems(3) by (intro nth_check_loop_untouched) (simp_all add: length_check_product)
    with here True show ?thesis by auto
  next
    case False
    let ?s' = "check_product e r s"
    from False Cons.prems have q: "q \<in> set ps" and ne: "pid r \<noteq> pid q" by auto
    have same: "products ?s' ! i = products s ! i"
      using Cons.prems ne by (simp add: nth_check_product_other)
    have "\<exists>t. products (check_loop e ps ?s') ! i = update_product q v t"
      using Cons.prems q same by (intro Cons.IH) (simp_all add: length_check_product)
    then show ?thesis by simp
  qed
qed

lemma requests_append [simp]: "requests (xs @ ys) = requests xs @ requests ys"
  by (induction xs rule: requests.induct) simp_all



lemma products_checkPrices:
  "products (checkPrices e s) =
     (if find_rejects e then products s
      else products (check_loop e (filter isActive (products s)) (emit (Log Starting_price_check) s)))"
  by (simp add: checkPrices_def Let_def)





lemma delay_after_each_item_without_rejection:
  assumes "\<forall>q. \<not> save_rejects e q" and "\<forall>i. findById e i \<noteq> Inl Rejected"
  shows "filter (\<lambda>ev. ev = Delay 2000) (step_events e p s) = [Delay 2000]"
proof (cases "new_price e (url p)")
  case None
  then show ?thesis by (simp add: step_events_fail)
next
  case (Some v)
  show ?thesis
  proof (cases "findById e (userId p)")
    case (Inl r)
    with assms(2) show ?thesis by (cases r) (metis (full_types))
  next
    case (Inr uo)
    with assms(1) Some show ?thesis
      by (cases uo) (simp_all add: step_events_ok Let_def)
  qed
qed

text \<open>
  Claim C8 does not hold of the code. The time-out of line 439 is the last statement of
  the \<open>try\<close> block: after a failed request it is awaited, but when \<open>product.save()\<close>
  rejects, control goes to the \<open>catch\<close> and the next request follows without a delay.
  In this sweep of three items every save is rejected and the second request fails: no
  delay separates the first request from the second, and the whole sweep of three items
  contains one delay.
\<close>

theorem delay_skipped_after_rejected_save:
  "trace (checkPrices shop_rejecting_save w0) =
     [Log Starting_price_check,
      Request (url tv), Log (Error_checking ''TV''),
      Request (url radio), Log Scraping_error, Delay 2000,
      Request (url lamp), Log (Error_checking ''Lamp''),
      Log Price_check_completed]"
proof -
  let ?e = "shop_rejecting_save"
  let ?s0 = "emit (Log Starting_price_check) w0"
  let ?s1 = "check_product ?e tv ?s0"
  let ?s2 = "check_product ?e radio ?s1"
  let ?s3 = "check_product ?e lamp ?s2"
  have fr: "\<not> find_rejects ?e" and fn: "fetch ?e (url radio) = None"
    and sr: "\<And>q. save_rejects ?e q"
    by (simp_all add: shop_rejecting_save_def shop_def radio_def)
  have ids: "title tv = ''TV''" "title lamp = ''Lamp''"
    by (simp_all add: tv_def lamp_def)
  have np: "new_price ?e (url tv) = Some (Num 85)" "new_price ?e (url radio) = None"
    "new_price ?e (url lamp) = Some (Num (39 / 2))"
    by (simp_all add: shop_rejecting_save_def shop_new_price)
  have t0: "trace ?s0 = [Log Starting_price_check]"
    by (simp add: w0_def)
  have e1: "step_events ?e tv ?s0 = [Request (url tv), Log (Error_checking ''TV'')]"
    by (subst step_events_ok [OF np(1)]) (simp add: Let_def ids sr)
  have e2: "step_events ?e radio ?s1 = [Request (url radio), Log Scraping_error, Delay 2000]"
    by (subst step_events_fail [OF np(2)]) (simp add: fn)
  have e3: "step_events ?e lamp ?s2 = [Request (url lamp), Log (Error_checking ''Lamp'')]"
    by (subst step_events_ok [OF np(3)]) (simp add: Let_def ids sr)
  have act: "filter isActive (products w0) = [tv, radio, lamp]"
    by (simp add: w0_def tv_def radio_def lamp_def)
  have "trace ?s3 = trace ?s0 @ step_events ?e tv ?s0 @ step_events ?e radio ?s1
      @ step_events ?e lamp ?s2"
    by (simp add: trace_check_product)
  then have tr3: "trace ?s3 =
     [Log Starting_price_check,
      Request (url tv), Log (Error_checking ''TV''),
      Request (url radio), Log Scraping_error, Delay 2000,
      Request (url lamp), Log (Error_checking ''Lamp'')]"
    by (simp only: t0 e1 e2 e3 append.simps)
  show ?thesis
    using fr by (simp add: checkPrices_def Let_def act tr3)
qed

section \<open>The notification mail, falsy prices and registration\<close>

lemma mail_in_step:
  assumes "Mail_delivered m \<in> set (step_events e p s) \<or> Mail_failed m \<in> set (step_events e p s)"
  shows "\<exists>u v. new_price e (url p) = Some v \<and> price_dropped p v (currentPrice p)
           \<and> m = mailOptions u (update_product p v (now s)) (currentPrice p) v"
proof (cases "new_price e (url p)")
  case None
  with assms show ?thesis by (simp add: step_events_fail split: if_splits)
next
  case (Some v)
  with assms show ?thesis
    by (auto simp: step_events_ok Let_def split: if_splits sum.splits option.splits)
qed

lemma js_lt_trans_zero: "js_lt (Num 0) v \<Longrightarrow> js_lt v a \<Longrightarrow> a \<noteq> Num 0 \<and> js_lt (Num 0) a"
  by (cases v; cases a) auto

lemma percent_samples:
  "percent_off (Num 100) (Num 75) = Num 25"
  "toFixed2 (js_minus (Num 100) (Num 75)) = Num 25"
  "percent_off (Num 80) (Num 34) = Num 57"
  by (simp_all add: percent_off_def round_double_samples floor_eq_iff)

text \<open>
  Claim C4 as stated fails, in a sweep. The product costs 80 with target 40 and the page
  shows 34; the notification is sent and its percentage is 57, whereas
  \<open>(80 - 34) / 80 * 100\<close> is 57.5 and rounds to 58: the quotient of the doubles 46 and
  80 is a double just below 0.575, its product with 100 is a double just below 57.5,
  and \<open>Math.round\<close> of that is 57.
\<close>

theorem percent_rounding_counterexample:
  "new_price shop (url kettle) = Some (Num 34) \<and> currentPrice kettle = Num 80
   \<and> Mail_delivered (mailOptions alice (update_product kettle (Num 34) 1000) (Num 80) (Num 34))
        \<in> set (step_events shop kettle w1)
   \<and> mail_percent (mailOptions alice (update_product kettle (Num 34) 1000) (Num 80) (Num 34)) = Num 57
   \<and> \<lfloor>((80::rat) - 34) / 80 * 100 + 1 / 2\<rfloor> = 58"
proof -
  have np: "new_price shop (url kettle) = Some (Num 34)"
    by (simp add: new_price_def shop_def kettle_def sample_prices)
  have "Mail_delivered (mailOptions alice (update_product kettle (Num 34) 1000) (Num 80) (Num 34))
        \<in> set (step_events shop kettle w1)"
    by (subst step_events_ok [OF np])
       (simp add: Let_def price_dropped_def shop_def kettle_def w1_def alice_def)
  with np show ?thesis
    by (simp add: mailOptions_def percent_samples) (simp add: kettle_def)
qed

text \<open>
  Claim C4, amended. The percentage in a notification sent by a sweep is
  \<open>Math.round(((old - new) / old) * 100)\<close> with each of the three operations rounded to
  a double, where \<open>old\<close> is the current price before the update and \<open>new\<close> the price of
  the page; the saving printed is \<open>(old - new).toFixed(2)\<close>. It is 25 for 100 and 75
  (with a saving of 25.00), and 57 for 80 and 34. \<open>sendNotification\<close> has no test for
  an old price of zero, and needs none in a sweep: there the new price is above zero and
  the old price above the new one, so the divisor is not zero.
\<close>

theorem savings_percentage:
  assumes "Mail_delivered m \<in> set (step_events e p s) \<or> Mail_failed m \<in> set (step_events e p s)"
  shows "(\<exists>v. new_price e (url p) = Some v
            \<and> mail_previous m = currentPrice p \<and> mail_new m = v
            \<and> js_lt (Num 0) v \<and> js_lt v (currentPrice p) \<and> currentPrice p \<noteq> Num 0
            \<and> mail_percent m
                = Math_round (js_times (js_div (js_minus (currentPrice p) v) (currentPrice p)) (Num 100))
            \<and> mail_you_save m = toFixed2 (js_minus (currentPrice p) v))
     \<and> percent_off (Num 100) (Num 75) = Num 25
     \<and> toFixed2 (js_minus (Num 100) (Num 75)) = Num 25
     \<and> percent_off (Num 80) (Num 34) = Num 57"
proof -
  from mail_in_step [OF assms] obtain u v
    where np: "new_price e (url p) = Some v" and pd: "price_dropped p v (currentPrice p)"
      and m: "m = mailOptions u (update_product p v (now s)) (currentPrice p) v"
    by blast
  from np have pos: "js_lt (Num 0) v" by (rule new_price_pos)
  from pd have lt: "js_lt v (currentPrice p)"
    by (simp add: price_dropped_def split: option.splits)
  from js_lt_trans_zero [OF pos lt] have nz: "currentPrice p \<noteq> Num 0" by simp
  from np pos lt nz m have "\<exists>v. new_price e (url p) = Some v
            \<and> mail_previous m = currentPrice p \<and> mail_new m = v
            \<and> js_lt (Num 0) v \<and> js_lt v (currentPrice p) \<and> currentPrice p \<noteq> Num 0
            \<and> mail_percent m
                = Math_round (js_times (js_div (js_minus (currentPrice p) v) (currentPrice p)) (Num 100))
            \<and> mail_you_save m = toFixed2 (js_minus (currentPrice p) v)"
    by (simp add: mailOptions_def percent_off_def)
  with percent_samples show ?thesis by blast
qed

text \<open>
  The sample notification, from 100 down to 85: fifteen per cent.
\<close>

theorem savings_percentage_witness:
  "Mail_delivered (mailOptions alice (update_product tv (Num 85) 1000) (Num 100) (Num 85))
     \<in> set (step_events shop tv w0)
   \<and> (\<exists>v. new_price shop (url tv) = Some v
         \<and> js_lt (Num 0) v \<and> js_lt v (currentPrice tv)
         \<and> mail_percent (mailOptions alice (update_product tv (Num 85) 1000) (Num 100) (Num 85))
             = Math_round (js_times (js_div (js_minus (currentPrice tv) v) (currentPrice tv)) (Num 100)))"
proof -
  have d: "Mail_delivered (mailOptions alice (update_product tv (Num 85) 1000) (Num 100) (Num 85))
     \<in> set (step_events shop tv w0)"
    by (subst step_events_ok [OF shop_new_price(1)])
       (simp add: Let_def price_dropped_def shop_def tv_def w0_def alice_def)
  from savings_percentage [where m = "mailOptions alice (update_product tv (Num 85) 1000) (Num 100) (Num 85)"
      and e = shop and p = tv and s = w0] d
  show ?thesis by blast
qed

lemma post_product_fail:
  "new_price e u = None \<Longrightarrow>
   post_product e uid u tg s =
     (Bad_request ''Unable to scrape product data. Please check the URL.'', snd (scrapePrice e u s))"
  by (auto simp: new_price_def post_product_def scrapePrice_def
        split: option.splits if_splits)

lemma post_product_ok:
  "new_price e u = Some v \<Longrightarrow>
   post_product e uid u tg s =
     (let s1 = emit (Request u) s;
          doc = \<lparr> pid = fresh_id (products s), userId = uid, url = u,
                  title = sd_title (scrape_page u (the (fetch e u))), currentPrice = v,
                  targetPrice = tg, image = sd_image (scrape_page u (the (fetch e u))),
                  store = sd_store (scrape_page u (the (fetch e u))), category = None,
                  priceHistory = [\<lparr>price = v, date = now s\<rparr>], isActive = True,
                  createdAt = now s, lastChecked = now s \<rparr>
      in if save_rejects e doc then (Server_error, s1)
         else (Created doc, emit (Saved doc) (s1\<lparr>products := products s @ [doc]\<rparr>)))"
  by (auto simp: new_price_def post_product_def scrapePrice_def Let_def
        split: option.splits if_splits)

lemma unknown_store_no_price:
  assumes "\<not> str_includes u ''amazon.''" "\<not> str_includes u ''ebay.''"
    "\<not> str_includes u ''walmart.''" "\<not> str_includes u ''bestbuy.''"
    "\<not> str_includes u ''target.''"
  shows "sd_price (scrape_page u d) = None" and "new_price e u = None"
proof -
  show "sd_price (scrape_page u d) = None" for d
    using assms by (simp add: scrape_page_def store_branch_def Let_def)
  then show "new_price e u = None"
    by (simp add: new_price_def split: option.splits)
qed


lemma post_product_requests:
  "requests (trace (snd (post_product e uid u tg s))) = requests (trace s) @ [u]"
proof (cases "new_price e u")
  case None
  then show ?thesis by (simp add: post_product_fail scrapePrice_state)
next
  case (Some v)
  then show ?thesis by (simp add: post_product_ok Let_def)
qed

text \<open>
  Claim C5 as stated fails for a price of zero. The page shows \<open>$0.00\<close>, the price
  extracted is the number 0 and not \<open>null\<close>; registration nevertheless answers with
  status 400 and stores nothing, and a check of a product with that URL stores nothing
  and goes straight to the delay: the tests \<open>!scrapedData.price\<close> and
  \<open>scrapedData.price\<close> treat 0 as they treat \<open>null\<close>.
\<close>

theorem zero_price_counterexample:
  "fetch shop ''https://www.target.com/p/gift'' = Some (target_page ''$0.00'')
   \<and> sd_price (scrape_page ''https://www.target.com/p/gift'' (target_page ''$0.00'')) = Some (Num 0)
   \<and> fst (post_product shop 7 ''https://www.target.com/p/gift'' None w0)
       = Bad_request ''Unable to scrape product data. Please check the URL.''
   \<and> products (snd (post_product shop 7 ''https://www.target.com/p/gift'' None w0)) = products w0
   \<and> products (check_product shop (tv\<lparr>url := ''https://www.target.com/p/gift''\<rparr>) w0) = products w0
   \<and> step_events shop (tv\<lparr>url := ''https://www.target.com/p/gift''\<rparr>) w0
       = [Request ''https://www.target.com/p/gift'', Delay 2000]"
proof -
  have f: "fetch shop ''https://www.target.com/p/gift'' = Some (target_page ''$0.00'')"
    by (simp add: shop_def)
  have np: "new_price shop ''https://www.target.com/p/gift'' = None"
    by (simp add: new_price_def f sample_prices)
  show ?thesis
    by (simp add: f sample_prices post_product_fail [OF np] scrapePrice_state
          products_check_product_fail np step_events_fail)
qed

text \<open>
  Claim C5, amended. A page whose price is \<open>null\<close> is never persisted, and neither is
  one whose price is the number 0 (or \<open>NaN\<close>): registration answers with status 400
  and leaves the collection as it was, and a check of a product with that URL only
  requests the page and waits. Whatever a check saves is the update of the product by
  the price of the page, which is then not \<open>null\<close> but truthy.
\<close>

theorem falsy_price_never_persisted:
  assumes "fetch e u = Some d" and "\<not> truthy_opt (sd_price (scrape_page u d))"
  shows "fst (post_product e uid u tg s)
           = Bad_request ''Unable to scrape product data. Please check the URL.''
     \<and> products (snd (post_product e uid u tg s)) = products s
     \<and> (url p = u \<longrightarrow> check_product e p s = pace (emit (Request u) s)
                     \<and> products (check_product e p s) = products s)
     \<and> \<not> truthy_opt None \<and> \<not> truthy_opt (Some NaN) \<and> \<not> truthy_opt (Some (Num 0))
     \<and> (Saved q \<in> set (step_events e p' s') \<longrightarrow>
          (\<exists>d' v. fetch e (url p') = Some d' \<and> sd_price (scrape_page (url p') d') = Some v
              \<and> truthy v \<and> q = update_product p' v (now s')))"
proof -
  from assms have np: "new_price e u = None"
    by (auto simp: new_price_None_iff)
  have a: "fst (post_product e uid u tg s)
           = Bad_request ''Unable to scrape product data. Please check the URL.''"
    and b: "products (snd (post_product e uid u tg s)) = products s"
    by (simp_all add: post_product_fail [OF np] scrapePrice_state)
  have c: "url p = u \<longrightarrow> check_product e p s = pace (emit (Request u) s)
                     \<and> products (check_product e p s) = products s"
    using np assms(1) by (auto simp: check_product_fail scrapePrice_def)
  have d: "Saved q \<in> set (step_events e p' s') \<longrightarrow>
          (\<exists>d' v. fetch e (url p') = Some d' \<and> sd_price (scrape_page (url p') d') = Some v
              \<and> truthy v \<and> q = update_product p' v (now s'))"
  proof (cases "new_price e (url p')")
    case None
    then show ?thesis by (simp add: step_events_fail)
  next
    case (Some v)
    then obtain d' where "fetch e (url p') = Some d'"
        "sd_price (scrape_page (url p') d') = Some v" "truthy v"
      by (auto simp: new_price_Some_iff)
    then show ?thesis
      by (auto simp: step_events_ok [OF Some] Let_def split: if_splits sum.splits option.splits)
  qed
  from a b c d show ?thesis by simp
qed

text \<open>
  The page showing \<open>$0.00\<close> is not stored, the page showing \<open>$85.00\<close> is.
\<close>

theorem falsy_price_never_persisted_witness:
  "fetch shop ''https://www.target.com/p/gift'' = Some (target_page ''$0.00'')
   \<and> \<not> truthy_opt (sd_price (scrape_page ''https://www.target.com/p/gift'' (target_page ''$0.00'')))
   \<and> products (snd (post_product shop 7 ''https://www.target.com/p/gift'' None w0)) = products w0
   \<and> Saved (update_product tv (Num 85) 1000) \<in> set (step_events shop tv w0)
   \<and> (\<exists>d' v. fetch shop (url tv) = Some d' \<and> sd_price (scrape_page (url tv) d') = Some v
              \<and> truthy v \<and> update_product tv (Num 85) 1000 = update_product tv v (now w0))"
proof -
  have f: "fetch shop ''https://www.target.com/p/gift'' = Some (target_page ''$0.00'')"
    by (simp add: shop_def)
  have z: "\<not> truthy_opt (sd_price (scrape_page ''https://www.target.com/p/gift'' (target_page ''$0.00'')))"
    by (simp add: sample_prices)
  have sv: "Saved (update_product tv (Num 85) 1000) \<in> set (step_events shop tv w0)"
    by (simp add: step_events_ok [where v = "Num 85"] shop_new_price Let_def)
       (simp add: shop_def w0_def)
  from falsy_price_never_persisted [OF f z, where uid = 7 and tg = None and s = w0
      and q = "update_product tv (Num 85) 1000" and p' = tv and s' = w0] f z sv
  show ?thesis by blast
qed

text \<open>
  Claim C6. \<open>POST /api/products\<close> makes exactly one request. When the request fails or
  the page has no truthy price, and so for every URL that names none of the five stores,
  the answer is status 400 with the message and the collection is unchanged. When the
  answer is 201 with a product, the page had loaded with that product's current price,
  its history is that one observation, and the collection is the old one followed by
  the product. A page with a price, and a save that is not rejected, give 201.
\<close>

theorem registration_outcome:
  "requests (trace (snd (post_product e uid u tg s))) = requests (trace s) @ [u]
   \<and> (fetch e u = None \<or> (\<exists>d. fetch e u = Some d \<and> \<not> truthy_opt (sd_price (scrape_page u d)))
        \<longrightarrow> fst (post_product e uid u tg s)
              = Bad_request ''Unable to scrape product data. Please check the URL.''
          \<and> products (snd (post_product e uid u tg s)) = products s)
   \<and> (\<not> str_includes u ''amazon.'' \<and> \<not> str_includes u ''ebay.'' \<and> \<not> str_includes u ''walmart.''
        \<and> \<not> str_includes u ''bestbuy.'' \<and> \<not> str_includes u ''target.''
        \<longrightarrow> fst (post_product e uid u tg s)
              = Bad_request ''Unable to scrape product data. Please check the URL.''
          \<and> products (snd (post_product e uid u tg s)) = products s)
   \<and> (fst (post_product e uid u tg s) = Created doc
        \<longrightarrow> (\<exists>d. fetch e u = Some d \<and> sd_price (scrape_page u d) = Some (currentPrice doc))
          \<and> truthy (currentPrice doc)
          \<and> priceHistory doc = [\<lparr>price = currentPrice doc, date = now s\<rparr>]
          \<and> url doc = u \<and> userId doc = uid \<and> targetPrice doc = tg \<and> isActive doc
          \<and> products (snd (post_product e uid u tg s)) = products s @ [doc])
   \<and> (new_price e u = Some v \<and> (\<forall>x. \<not> save_rejects e x)
        \<longrightarrow> (\<exists>doc. fst (post_product e uid u tg s) = Created doc \<and> currentPrice doc = v))"
proof (intro conjI impI)
  show "requests (trace (snd (post_product e uid u tg s))) = requests (trace s) @ [u]"
    by (rule post_product_requests)
next
  assume "fetch e u = None \<or> (\<exists>d. fetch e u = Some d \<and> \<not> truthy_opt (sd_price (scrape_page u d)))"
  then have np: "new_price e u = None" by (simp add: new_price_None_iff)
  show "fst (post_product e uid u tg s)
          = Bad_request ''Unable to scrape product data. Please check the URL.''"
    and "products (snd (post_product e uid u tg s)) = products s"
    by (simp_all add: post_product_fail [OF np] scrapePrice_state)
next
  assume "\<not> str_includes u ''amazon.'' \<and> \<not> str_includes u ''ebay.'' \<and> \<not> str_includes u ''walmart.''
        \<and> \<not> str_includes u ''bestbuy.'' \<and> \<not> str_includes u ''target.''"
  then have np: "new_price e u = None" by (simp add: unknown_store_no_price)
  show "fst (post_product e uid u tg s)
          = Bad_request ''Unable to scrape product data. Please check the URL.''"
    and "products (snd (post_product e uid u tg s)) = products s"
    by (simp_all add: post_product_fail [OF np] scrapePrice_state)
next
  assume c: "fst (post_product e uid u tg s) = Created doc"
  then obtain v where np: "new_price e u = Some v"
    by (cases "new_price e u") (auto simp: post_product_fail)
  then obtain d where d: "fetch e u = Some d" "sd_price (scrape_page u d) = Some v" "truthy v"
    by (auto simp: new_price_Some_iff)
  from c have dq: "doc = \<lparr> pid = fresh_id (products s), userId = uid, url = u,
                  title = sd_title (scrape_page u (the (fetch e u))), currentPrice = v,
                  targetPrice = tg, image = sd_image (scrape_page u (the (fetch e u))),
                  store = sd_store (scrape_page u (the (fetch e u))), category = None,
                  priceHistory = [\<lparr>price = v, date = now s\<rparr>], isActive = True,
                  createdAt = now s, lastChecked = now s \<rparr>"
    and sv: "\<not> save_rejects e doc"
    by (auto simp: post_product_ok [OF np] Let_def split: if_splits)
  from d dq show "\<exists>d. fetch e u = Some d \<and> sd_price (scrape_page u d) = Some (currentPrice doc)"
    by simp
  from d dq show "truthy (currentPrice doc)" by simp
  from dq show "priceHistory doc = [\<lparr>price = currentPrice doc, date = now s\<rparr>]"
    by simp
  from dq show "url doc = u" "userId doc = uid" "targetPrice doc = tg" "isActive doc"
    by simp_all
  from sv show "products (snd (post_product e uid u tg s)) = products s @ [doc]"
    unfolding post_product_ok [OF np] Let_def dq [symmetric] by simp
next
  assume "new_price e u = Some v \<and> (\<forall>x. \<not> save_rejects e x)"
  then show "\<exists>doc. fst (post_product e uid u tg s) = Created doc \<and> currentPrice doc = v"
    by (simp add: post_product_ok Let_def)
qed

text \<open>
  An unknown shop is refused; the sample lamp page is registered at 19.50.
\<close>

theorem registration_outcome_witness:
  "fst (post_product shop 7 ''https://www.shop.example/item'' (Some (Num 10)) w0)
     = Bad_request ''Unable to scrape product data. Please check the URL.''
   \<and> products (snd (post_product shop 7 ''https://www.shop.example/item'' (Some (Num 10)) w0)) = products w0
   \<and> (\<exists>doc. fst (post_product shop 7 ''https://www.target.com/p/lamp'' (Some (Num 10)) w0) = Created doc
         \<and> currentPrice doc = Num (39 / 2)
         \<and> priceHistory doc = [\<lparr>price = Num (39 / 2), date = 1000\<rparr>]
         \<and> products (snd (post_product shop 7 ''https://www.target.com/p/lamp'' (Some (Num 10)) w0))
             = products w0 @ [doc])"
proof -
  have unknown: "\<not> str_includes ''https://www.shop.example/item'' ''amazon.''
      \<and> \<not> str_includes ''https://www.shop.example/item'' ''ebay.''
      \<and> \<not> str_includes ''https://www.shop.example/item'' ''walmart.''
      \<and> \<not> str_includes ''https://www.shop.example/item'' ''bestbuy.''
      \<and> \<not> str_includes ''https://www.shop.example/item'' ''target.''"
    by simp
  have np: "new_price shop ''https://www.target.com/p/lamp'' = Some (Num (39 / 2))"
    using shop_new_price(3) by (simp add: lamp_def)
  have sv: "\<forall>x. \<not> save_rejects shop x" by (simp add: shop_def)
  have n: "now w0 = 1000" by (simp add: w0_def)
  note r1 = registration_outcome [where e = shop and uid = 7 and u = "''https://www.shop.example/item''"
      and tg = "Some (Num 10)" and s = w0]
  note r2 = registration_outcome [where e = shop and uid = 7 and u = "''https://www.target.com/p/lamp''"
      and tg = "Some (Num 10)" and s = w0 and v = "Num (39 / 2)"]
  from r2 np sv obtain doc
    where c: "fst (post_product shop 7 ''https://www.target.com/p/lamp'' (Some (Num 10)) w0) = Created doc"
      and cp: "currentPrice doc = Num (39 / 2)"
    by blast
  from registration_outcome [where e = shop and uid = 7 and u = "''https://www.target.com/p/lamp''"
      and tg = "Some (Num 10)" and s = w0 and doc = doc] c cp n
  have "priceHistory doc = [\<lparr>price = Num (39 / 2), date = 1000\<rparr>]
    \<and> products (snd (post_product shop 7 ''https://www.target.com/p/lamp'' (Some (Num 10)) w0))
             = products w0 @ [doc]"
    by simp
  with c cp r1 unknown show ?thesis by blast
qed

section \<open>The price history\<close>

lemma length_slice_last: "length (slice_last n xs) = min n (length xs)"
  by (simp add: slice_last_def)

lemma slice_last_suffix: "take (length xs - n) xs @ slice_last n xs = xs"
  by (simp add: slice_last_def)

lemma slice_last_append: "slice_last n (slice_last n xs @ ys) = slice_last n (xs @ ys)"
proof (cases "n \<le> length xs")
  case True
  then have "length xs + length ys - (length xs - n + n) + (length xs - n) = length xs + length ys - n"
    by simp
  with True show ?thesis by (simp add: slice_last_def min_def)
next
  case False
  then show ?thesis by (simp add: slice_last_def)
qed

lemma slice_last_short: "length xs \<le> n \<Longrightarrow> slice_last n xs = xs"
  by (simp add: slice_last_def)

lemma length_history_update:
  "length (priceHistory (update_product p v t)) = min 30 (Suc (length (priceHistory p)))"
  by (simp add: priceHistory_update_product length_slice_last)

lemma history_fold:
  "length (priceHistory p) \<le> 30 \<Longrightarrow>
   priceHistory (foldl (\<lambda>q (v, t). update_product q v t) p obs)
     = slice_last 30 (priceHistory p @ map (\<lambda>(v, t). \<lparr>price = v, date = t\<rparr>) obs)"
proof (induction obs arbitrary: p)
  case Nil
  then show ?case by (simp add: slice_last_short)
next
  case (Cons o1 obs)
  obtain v t where o1: "o1 = (v, t)" by (cases o1)
  have "length (priceHistory (update_product p v t)) \<le> 30"
    by (simp add: length_history_update)
  from Cons.IH [OF this] show ?case
    by (simp add: o1 priceHistory_update_product slice_last_append)
qed

lemma findOneAndUpdate_mem:
  assumes "findOneAndUpdate f g db = Some (r, db')" and "q \<in> set db'"
  shows "q \<in> set db \<or> (\<exists>x\<in>set db. q = g x)"
  using assms
proof (induction db arbitrary: db')
  case Nil
  then show ?case by simp
next
  case (Cons x db)
  then show ?case
    by (auto split: if_splits option.splits)
qed

lemma hist_ok_update: "hist_ok (update_product p v t)"
  by (simp add: hist_ok_def length_history_update)

lemma hist_ok_check_product:
  assumes "\<forall>q\<in>set (products s). hist_ok q"
  shows "\<forall>q\<in>set (products (check_product e p s)). hist_ok q"
proof (cases "new_price e (url p)")
  case None
  with assms show ?thesis by (simp add: products_check_product_fail)
next
  case (Some v)
  with assms show ?thesis
    by (auto simp: products_check_product_ok save_doc_def hist_ok_update)
qed

lemma hist_ok_check_loop:
  "\<forall>q\<in>set (products s). hist_ok q \<Longrightarrow> \<forall>q\<in>set (products (check_loop e ps s)). hist_ok q"
proof (induction ps arbitrary: s)
  case Nil
  then show ?case by simp
next
  case (Cons p ps)
  from Cons.prems have "\<forall>q\<in>set (products (check_product e p s)). hist_ok q"
    by (rule hist_ok_check_product)
  then show ?case by (simp add: Cons.IH)
qed

lemma hist_ok_post_product:
  assumes "\<forall>q\<in>set (products s). hist_ok q"
  shows "\<forall>q\<in>set (products (snd (post_product e uid u tg s))). hist_ok q"
proof (cases "new_price e u")
  case None
  with assms show ?thesis by (simp add: post_product_fail scrapePrice_state)
next
  case (Some v)
  with assms show ?thesis
    by (auto simp: post_product_ok Let_def hist_ok_def)
qed

lemma hist_ok_put_product:
  assumes "\<forall>q\<in>set (products s). hist_ok q"
  shows "\<forall>q\<in>set (products (snd (put_product uid i tg s))). hist_ok q"
proof (cases "findOneAndUpdate (\<lambda>q. pid q = i \<and> userId q = uid) (\<lambda>q. q\<lparr>targetPrice := tg\<rparr>) (products s)")
  case None
  with assms show ?thesis by (simp add: put_product_def)
next
  case (Some a)
  obtain r db' where a: "a = (r, db')" by (cases a)
  have "hist_ok (x\<lparr>targetPrice := tg\<rparr>) = hist_ok x" for x by (simp add: hist_ok_def)
  with findOneAndUpdate_mem [OF Some [unfolded a]] assms
  have "\<forall>q\<in>set db'. hist_ok q" by blast
  with Some a show ?thesis by (simp add: put_product_def)
qed

lemma hist_ok_delete_product:
  assumes "\<forall>q\<in>set (products s). hist_ok q"
  shows "\<forall>q\<in>set (products (snd (delete_product uid i s))). hist_ok q"
proof (cases "findOneAndUpdate (\<lambda>q. pid q = i \<and> userId q = uid) (\<lambda>q. q\<lparr>isActive := False\<rparr>) (products s)")
  case None
  with assms show ?thesis by (simp add: delete_product_def)
next
  case (Some a)
  obtain r db' where a: "a = (r, db')" by (cases a)
  have "hist_ok (x\<lparr>isActive := False\<rparr>) = hist_ok x" for x by (simp add: hist_ok_def)
  with findOneAndUpdate_mem [OF Some [unfolded a]] assms
  have "\<forall>q\<in>set db'. hist_ok q" by blast
  with Some a show ?thesis by (simp add: delete_product_def)
qed

lemma reachable_hist_ok: "reachable s \<Longrightarrow> \<forall>q\<in>set (products s). hist_ok q"
proof (induction rule: reachable.induct)
  case (start t)
  then show ?case by simp
next
  case (register s e uid u tg)
  then show ?case by (simp add: hist_ok_post_product)
next
  case (retarget s uid i tg)
  then show ?case by (simp add: hist_ok_put_product)
next
  case (remove s uid i)
  then show ?case by (simp add: hist_ok_delete_product)
next
  case (sweep s e)
  then have "\<forall>q\<in>set (products (emit (Log Starting_price_check) s)). hist_ok q" by simp
  from hist_ok_check_loop [OF this] sweep.IH show ?case
    by (simp add: products_checkPrices)
next
  case (item s p e)
  then show ?case by (simp add: hist_ok_check_product)
next
  case (tick s d)
  then show ?case by simp
qed

lemma nth_checkPrices_updated:
  assumes "distinct (map pid (products s))" and "j < length (products s)"
    and "\<not> find_rejects e" and "isActive (products s ! j)"
    and "new_price e (url (products s ! j)) = Some v"
    and "\<forall>t. \<not> save_rejects e (update_product (products s ! j) v t)"
  shows "\<exists>t. products (checkPrices e s) ! j = update_product (products s ! j) v t"
proof -
  let ?s0 = "emit (Log Starting_price_check) s"
  let ?ps = "filter isActive (products s)"
  have dis: "distinct (map pid ?ps)" using assms(1) by (rule distinct_map_filter)
  have mem: "products s ! j \<in> set ?ps" using assms(2,4) by simp
  have "\<exists>t. products (check_loop e ?ps ?s0) ! j = update_product (products s ! j) v t"
    using dis mem assms by (intro nth_check_loop_updated) simp_all
  with assms(3) show ?thesis by (simp add: products_checkPrices)
qed

text \<open>
  Claim C2. In every reachable state each stored product has between 1 and 30
  observations. Registration stores one. An update appends one observation and keeps
  the last 30 of the result; a sweep replaces an active product whose page gives a price
  (and whose save is not rejected) by such an update. After any number of updates the
  history is the last 30 of all observations in the order they were made, where the last
  30 of a list are what remains when its oldest elements are cut off.
\<close>

theorem history_bounded_fifo:
  "(reachable s \<and> p \<in> set (products s)
      \<longrightarrow> 1 \<le> length (priceHistory p) \<and> length (priceHistory p) \<le> 30)
   \<and> (fst (post_product e uid u tg s) = Created doc \<longrightarrow> length (priceHistory doc) = 1)
   \<and> priceHistory (update_product p v t) = slice_last 30 (priceHistory p @ [\<lparr>price = v, date = t\<rparr>])
   \<and> (distinct (map pid (products s)) \<and> j < length (products s) \<and> \<not> find_rejects e
        \<and> isActive (products s ! j) \<and> new_price e (url (products s ! j)) = Some v'
        \<and> (\<forall>x. \<not> save_rejects e x)
      \<longrightarrow> (\<exists>t'. products (checkPrices e s) ! j = update_product (products s ! j) v' t'))
   \<and> (length (priceHistory p) \<le> 30
      \<longrightarrow> priceHistory (foldl (\<lambda>q (v, t). update_product q v t) p obs)
            = slice_last 30 (priceHistory p @ map (\<lambda>(v, t). \<lparr>price = v, date = t\<rparr>) obs))
   \<and> length (slice_last 30 xs) = min 30 (length xs)
   \<and> take (length xs - 30) xs @ slice_last 30 xs = xs"
proof (intro conjI impI)
  assume "reachable s \<and> p \<in> set (products s)"
  then have "hist_ok p" using reachable_hist_ok by blast
  then show "1 \<le> length (priceHistory p)" and "length (priceHistory p) \<le> 30"
    by (simp_all add: hist_ok_def)
next
  assume c: "fst (post_product e uid u tg s) = Created doc"
  then obtain w where np: "new_price e u = Some w"
    by (cases "new_price e u") (auto simp: post_product_fail)
  from c show "length (priceHistory doc) = 1"
    by (auto simp: post_product_ok [OF np] Let_def split: if_splits)
next
  show "priceHistory (update_product p v t) = slice_last 30 (priceHistory p @ [\<lparr>price = v, date = t\<rparr>])"
    by (rule priceHistory_update_product)
next
  assume "distinct (map pid (products s)) \<and> j < length (products s) \<and> \<not> find_rejects e
        \<and> isActive (products s ! j) \<and> new_price e (url (products s ! j)) = Some v'
        \<and> (\<forall>x. \<not> save_rejects e x)"
  then show "\<exists>t'. products (checkPrices e s) ! j = update_product (products s ! j) v' t'"
    by (intro nth_checkPrices_updated) simp_all
next
  assume "length (priceHistory p) \<le> 30"
  then show "priceHistory (foldl (\<lambda>q (v, t). update_product q v t) p obs)
            = slice_last 30 (priceHistory p @ map (\<lambda>(v, t). \<lparr>price = v, date = t\<rparr>) obs)"
    by (rule history_fold)
next
  show "length (slice_last 30 xs) = min 30 (length xs)" by (rule length_slice_last)
  show "take (length xs - 30) xs @ slice_last 30 xs = xs" by (rule slice_last_suffix)
qed

text \<open>
  A registered product; the sample product after 31 further observations, and after two.
\<close>

theorem history_bounded_fifo_witness:
  "reachable (snd (post_product shop 7 ''https://www.target.com/p/tv'' (Some (Num 90))
       \<lparr>products = [], now = 0, trace = []\<rparr>))
   \<and> (\<exists>doc. products (snd (post_product shop 7 ''https://www.target.com/p/tv'' (Some (Num 90))
                 \<lparr>products = [], now = 0, trace = []\<rparr>)) = [doc]
         \<and> 1 \<le> length (priceHistory doc) \<and> length (priceHistory doc) \<le> 30)
   \<and> length (priceHistory tv) \<le> 30
   \<and> length (priceHistory (foldl (\<lambda>q (v, t). update_product q v t) tv
        (map (\<lambda>n. (Num (of_nat n), n)) [1..<32]))) = 30
   \<and> priceHistory (foldl (\<lambda>q (v, t). update_product q v t) tv [(Num 90, 10), (Num 85, 20)])
       = [\<lparr>price = Num 100, date = 0\<rparr>, \<lparr>price = Num 90, date = 10\<rparr>, \<lparr>price = Num 85, date = 20\<rparr>]
   \<and> (\<exists>t'. products (checkPrices shop w0) ! 0 = update_product tv (Num 85) t')"
proof -
  let ?start = "\<lparr>products = [], now = 0, trace = []\<rparr>"
  let ?s1 = "snd (post_product shop 7 ''https://www.target.com/p/tv'' (Some (Num 90)) ?start)"
  have r: "reachable ?s1"
    by (rule reachable.register) (rule reachable.start)
  have np: "new_price shop ''https://www.target.com/p/tv'' = Some (Num 85)"
    using shop_new_price(1) by (simp add: tv_def)
  have sv: "\<And>x. \<not> save_rejects shop x" by (simp add: shop_def)
  obtain doc where pr: "products ?s1 = [doc]"
    by (simp add: post_product_ok [OF np] Let_def sv)
  then have m: "doc \<in> set (products ?s1)" by simp
  have l: "length (priceHistory tv) \<le> 30" by (simp add: tv_def)
  have h: "distinct (map pid (products w0)) \<and> (0::nat) < length (products w0) \<and> \<not> find_rejects shop
        \<and> isActive (products w0 ! 0) \<and> new_price shop (url (products w0 ! 0)) = Some (Num 85)
        \<and> (\<forall>x. \<not> save_rejects shop x)"
    using shop_new_price(1) by (simp add: w0_def shop_def) (simp add: tv_def radio_def lamp_def)
  have w: "products w0 ! 0 = tv" by (simp add: w0_def)
  note t1 = history_bounded_fifo [where s = ?s1 and p = doc]
  note t2 = history_bounded_fifo [where p = tv and obs = "map (\<lambda>n. (Num (of_nat n), n)) [1..<32]"
       and xs = "priceHistory tv @ map (\<lambda>(v, t). \<lparr>price = v, date = t\<rparr>) (map (\<lambda>n. (Num (of_nat n), n)) [1..<32])"]
  note t3 = history_bounded_fifo [where p = tv and obs = "[(Num 90, 10), (Num 85, 20)]"]
  note t4 = history_bounded_fifo [where s = w0 and e = shop and j = 0 and v' = "Num 85"]
  have a: "1 \<le> length (priceHistory doc) \<and> length (priceHistory doc) \<le> 30"
    using t1 r m by blast
  have b0: "priceHistory (foldl (\<lambda>q (v, t). update_product q v t) tv (map (\<lambda>n. (Num (of_nat n), n)) [1..<32]))
      = slice_last 30 (priceHistory tv @ map (\<lambda>(v, t). \<lparr>price = v, date = t\<rparr>) (map (\<lambda>n. (Num (of_nat n), n)) [1..<32]))"
    using t2 l by blast
  have b1: "length (slice_last 30 (priceHistory tv @ map (\<lambda>(v, t). \<lparr>price = v, date = t\<rparr>) (map (\<lambda>n. (Num (of_nat n), n)) [1..<32])))
      = min 30 (length (priceHistory tv @ map (\<lambda>(v, t). \<lparr>price = v, date = t\<rparr>) (map (\<lambda>n. (Num (of_nat n), n)) [1..<32])))"
    using t2 by blast
  have b: "length (priceHistory (foldl (\<lambda>q (v, t). update_product q v t) tv
        (map (\<lambda>n. (Num (of_nat n), n)) [1..<32]))) = 30"
    unfolding b0 b1 by (simp add: tv_def)
  have c0: "priceHistory (foldl (\<lambda>q (v, t). update_product q v t) tv [(Num 90, 10), (Num 85, 20)])
       = slice_last 30 (priceHistory tv @ map (\<lambda>(v, t). \<lparr>price = v, date = t\<rparr>) [(Num 90, 10), (Num 85, 20)])"
    using t3 l by blast
  have c: "priceHistory (foldl (\<lambda>q (v, t). update_product q v t) tv [(Num 90, 10), (Num 85, 20)])
       = [\<lparr>price = Num 100, date = 0\<rparr>, \<lparr>price = Num 90, date = 10\<rparr>, \<lparr>price = Num 85, date = 20\<rparr>]"
    unfolding c0 by (simp add: tv_def slice_last_def)
  have "\<exists>t'. products (checkPrices shop w0) ! 0 = update_product (products w0 ! 0) (Num 85) t'"
    using t4 h by blast
  then have d: "\<exists>t'. products (checkPrices shop w0) ! 0 = update_product tv (Num 85) t'"
    by (simp add: w)
  from r pr a l b c d show ?thesis by simp
qed




section \<open>Ids stay distinct\<close>

text \<open>The statements about a sweep above assume a collection with distinct ids. Every
  reachable state has one: a new product gets an id above all stored ones, and nothing
  else changes an id.\<close>

lemma le_foldr_max: "x \<in> set xs \<Longrightarrow> x \<le> foldr max xs (0::nat)"
  by (induction xs) (auto simp: max_def)

lemma fresh_id_fresh: "fresh_id db \<notin> set (map pid db)"
proof
  assume "fresh_id db \<in> set (map pid db)"
  then have "fresh_id db \<le> foldr max (map pid db) 0" by (rule le_foldr_max)
  then show False by (simp add: fresh_id_def)
qed

lemma findOneAndUpdate_pids:
  assumes "findOneAndUpdate f g db = Some (r, db')" and "\<And>q. pid (g q) = pid q"
  shows "map pid db' = map pid db"
  using assms(1)
proof (induction db arbitrary: db')
  case Nil
  then show ?case by simp
next
  case (Cons x db)
  then show ?case
    by (auto simp: assms(2) split: if_splits option.splits)
qed

lemma pids_put_product: "map pid (products (snd (put_product uid i tg s))) = map pid (products s)"
  by (auto simp: put_product_def findOneAndUpdate_pids split: option.splits)

lemma pids_delete_product: "map pid (products (snd (delete_product uid i s))) = map pid (products s)"
  by (auto simp: delete_product_def findOneAndUpdate_pids split: option.splits)

lemma distinct_post_product:
  assumes "distinct (map pid (products s))"
  shows "distinct (map pid (products (snd (post_product e uid u tg s))))"
proof (cases "new_price e u")
  case None
  with assms show ?thesis by (simp add: post_product_fail scrapePrice_state)
next
  case (Some v)
  with assms fresh_id_fresh [of "products s"] show ?thesis
    by (simp add: post_product_ok Let_def)
qed

lemma reachable_distinct_ids: "reachable s \<Longrightarrow> distinct (map pid (products s))"
proof (induction rule: reachable.induct)
  case (start t)
  then show ?case by simp
next
  case (register s e uid u tg)
  then show ?case by (simp add: distinct_post_product)
next
  case (retarget s uid i tg)
  then show ?case by (simp add: pids_put_product)
next
  case (remove s uid i)
  then show ?case by (simp add: pids_delete_product)
next
  case (sweep s e)
  then show ?case by (simp add: products_checkPrices pids_check_loop)
next
  case (item s p e)
  then show ?case by (simp add: pids_check_product)
next
  case (tick s d)
  then show ?case by simp
qed

end
